theory Spec2Isabelle
  imports Complex_Main
begin

section \<open>Strings\<close>

text \<open>
  A Python \<^verbatim>\<open>str\<close> is a sequence of Unicode code points, so a character is a
  natural number and a string a list of them. \<open>u\<close> embeds an ASCII literal; the
  Chinese literals of \<^verbatim>\<open>app.py\<close> are written by their code points.
\<close>

type_synonym uchar = nat
type_synonym ustr = "uchar list"

definition u :: "string \<Rightarrow> ustr" where
  "u s = map of_char s"

text \<open>
  \<^verbatim>\<open>str.isspace\<close> of one character, which is also the class \<^verbatim>\<open>\s\<close> of a
  \<^verbatim>\<open>str\<close> pattern and what \<^verbatim>\<open>str.strip()\<close> removes.
\<close>

definition is_space :: "uchar \<Rightarrow> bool" where
  "is_space c \<longleftrightarrow>
     (9 \<le> c \<and> c \<le> 13) \<or> (28 \<le> c \<and> c \<le> 32) \<or> c = 133 \<or> c = 160 \<or> c = 5760
     \<or> (8192 \<le> c \<and> c \<le> 8202) \<or> c = 8232 \<or> c = 8233 \<or> c = 8239 \<or> c = 8287
     \<or> c = 12288"

definition strip :: "ustr \<Rightarrow> ustr" where
  "strip s = rev (dropWhile is_space (rev (dropWhile is_space s)))"

text \<open>\<^verbatim>\<open>sub in s\<close> on strings: \<open>sub\<close> occurs in \<open>s\<close> as a contiguous block.\<close>

fun startswith :: "ustr \<Rightarrow> ustr \<Rightarrow> bool" where
  "startswith [] s = True"
| "startswith (c # cs) [] = False"
| "startswith (c # cs) (x # xs) = (c = x \<and> startswith cs xs)"

fun contains :: "ustr \<Rightarrow> ustr \<Rightarrow> bool" where
  "contains sub [] = (sub = [])"
| "contains sub (x # xs) = (startswith sub (x # xs) \<or> contains sub xs)"

section \<open>Exceptions\<close>

text \<open>
  Every \<^verbatim>\<open>try\<close> block of the program is a function into \<open>exn + 'a\<close>; its
  \<^verbatim>\<open>except Exception\<close> handler is the case distinction on that result.
\<close>

datatype exn_kind = TimeoutExpired | OSError | UnicodeDecodeError | TypeError
  | AttributeError | ValueError

datatype exn = Raised (kind: exn_kind) (message: ustr)

section \<open>Log files\<close>

text \<open>
  What \<^verbatim>\<open>parse_log_file\<close> sees of a path: no such file
  (\<^verbatim>\<open>os.path.exists\<close> is false), a file whose \<^verbatim>\<open>open\<close> or \<^verbatim>\<open>readlines\<close>
  raises, or the list \<^verbatim>\<open>f.readlines()\<close> returns (each line with its terminator).
\<close>

datatype file_state = Absent | Unreadable exn | Lines "ustr list"

type_synonym filesystem = "ustr \<Rightarrow> file_state"

text \<open>
  The slice \<^verbatim>\<open>xs[k:]\<close>: a negative \<open>k\<close> counts from the end, and the start is
  clipped to the list.
\<close>

definition slice_from :: "int \<Rightarrow> 'a list \<Rightarrow> 'a list" where
  "slice_from k xs =
     (let n = int (length xs);
          start = (if k < 0 then max 0 (n + k) else min k n)
      in drop (nat start) xs)"

definition parse_log_file_try :: "filesystem \<Rightarrow> ustr \<Rightarrow> int \<Rightarrow> exn + ustr list" where
  "parse_log_file_try fs file_path max_lines =
     (case fs file_path of
        Absent \<Rightarrow> Inr []
      | Unreadable e \<Rightarrow> Inl e
      | Lines lines \<Rightarrow> Inr (map strip (slice_from (- max_lines) lines)))"

text \<open>
  The handler returns \<^verbatim>\<open>logs\<close>, still empty when \<^verbatim>\<open>open\<close> or
  \<^verbatim>\<open>readlines\<close> raises: nothing was appended yet.
\<close>

definition parse_log_file :: "filesystem \<Rightarrow> ustr \<Rightarrow> int \<Rightarrow> ustr list" where
  "parse_log_file fs file_path max_lines =
     (case parse_log_file_try fs file_path max_lines of
        Inl e \<Rightarrow> []
      | Inr logs \<Rightarrow> logs)"

section \<open>Network-rate sampler\<close>

text \<open>
  The two fields of \<^verbatim>\<open>psutil.net_io_counters()\<close> the program reads, and the
  module globals \<^verbatim>\<open>_last_net_io\<close> and \<^verbatim>\<open>_last_net_io_time\<close>. A
  \<^verbatim>\<open>datetime\<close> is its number of microseconds on the local clock, which is the
  resolution of \<^verbatim>\<open>datetime.now()\<close>; the clock may be set back between two calls.
\<close>

record net_io =
  bytes_sent :: int
  bytes_recv :: int

record sampler =
  last_net_io :: "net_io option"
  last_net_io_time :: "int option"

record net_stats =
  total_sent :: int
  total_recv :: int
  total_sent_gb :: rat
  total_recv_gb :: rat
  upload_speed :: int
  download_speed :: int
  upload_speed_mbps :: rat
  download_speed_mbps :: rat

text \<open>
  A Python float is an IEEE 754 binary64 number, here the rational it denotes. Each
  arithmetic operation of the program is the exact operation followed by \<open>fl\<close>, the
  rounding to the nearest number with a 53-bit significand, ties to the even
  significand. The exponent is not bounded: overflow and subnormal numbers are left
  out, which no byte counter or clock reading of a host comes near.
\<close>

fun bitlen :: "nat \<Rightarrow> nat" where
  "bitlen n = (if n = 0 then 0 else Suc (bitlen (n div 2)))"

text \<open>For \<open>x > 0\<close>, the \<open>e\<close> with \<open>2\<^sup>e \<le> x < 2\<^sup>e\<^sup>+\<^sup>1\<close>.\<close>

definition exponent :: "rat \<Rightarrow> int" where
  "exponent x =
     (if 1 \<le> x then int (bitlen (nat \<lfloor>x\<rfloor>)) - 1
      else - int (bitlen (nat \<lceil>1 / x\<rceil> - 1)))"

definition pow2 :: "int \<Rightarrow> rat" where
  "pow2 k = (if 0 \<le> k then 2 ^ nat k else 1 / 2 ^ nat (- k))"

definition round_half_even :: "rat \<Rightarrow> int" where
  "round_half_even y =
     (let f = \<lfloor>y\<rfloor>; d = y - of_int f
      in if d < 1 / 2 then f else if 1 / 2 < d then f + 1
         else if even f then f else f + 1)"

definition fl_pos :: "rat \<Rightarrow> rat" where
  "fl_pos x =
     (let ulp = pow2 (exponent x - 52)
      in of_int (round_half_even (x / ulp)) * ulp)"

definition fl :: "rat \<Rightarrow> rat" where
  "fl x = (if x = 0 then 0 else if x < 0 then - fl_pos (- x) else fl_pos x)"

text \<open>
  \<^verbatim>\<open>timedelta.total_seconds()\<close> divides the microseconds by \<open>10\<^sup>6\<close>, a division of
  integers that is rounded once. \<^verbatim>\<open>int(x)\<close> truncates towards zero.
  \<^verbatim>\<open>round(x, 2)\<close> rounds the exact value of \<open>x\<close> to two decimals, ties to even, and
  returns the float nearest to that decimal.
\<close>

definition total_seconds :: "int \<Rightarrow> rat" where
  "total_seconds us = fl (of_int us / 1000000)"

definition py_int_of_float :: "rat \<Rightarrow> int" where
  "py_int_of_float x = (if x < 0 then \<lceil>x\<rceil> else \<lfloor>x\<rfloor>)"

definition py_round2 :: "rat \<Rightarrow> rat" where
  "py_round2 x = fl (of_int (round_half_even (x * 100)) / 100)"

text \<open>
  \<^verbatim>\<open>n / x\<close> for an integer \<open>n\<close> and a float \<open>x\<close> converts \<open>n\<close> to a float and
  divides; \<^verbatim>\<open>n / m\<close> for two integers is the quotient rounded once;
  \<^verbatim>\<open>x * 8 / (1024 * 1024)\<close> multiplies, then divides.
\<close>

definition int_div_float :: "int \<Rightarrow> rat \<Rightarrow> rat" where
  "int_div_float n x = fl (fl (of_int n) / x)"

definition int_div_int :: "int \<Rightarrow> int \<Rightarrow> rat" where
  "int_div_int n m = fl (of_int n / of_int m)"

definition to_mbps :: "rat \<Rightarrow> rat" where
  "to_mbps x = fl (fl (x * 8) / (1024 * 1024))"

definition zero_net_stats :: net_stats where
  "zero_net_stats =
     \<lparr>total_sent = 0, total_recv = 0, total_sent_gb = 0, total_recv_gb = 0,
      upload_speed = 0, download_speed = 0,
      upload_speed_mbps = 0, download_speed_mbps = 0\<rparr>"

text \<open>
  The \<^verbatim>\<open>try\<close> block of \<^verbatim>\<open>get_network_stats\<close>. Its first argument is what
  \<^verbatim>\<open>psutil.net_io_counters()\<close> does: it raises, or returns \<^verbatim>\<open>None\<close> (a host
  without interfaces; reading \<^verbatim>\<open>bytes_sent\<close> then raises), or returns the
  counters. The second is \<^verbatim>\<open>datetime.now()\<close>. The result pairs the returned
  dictionary with the globals as the block leaves them.
\<close>

definition get_network_stats_try ::
  "exn + net_io option \<Rightarrow> int \<Rightarrow> sampler \<Rightarrow> exn + net_stats \<times> sampler" where
  "get_network_stats_try net_io_counters now g =
     (case net_io_counters of
        Inl e \<Rightarrow> Inl e
      | Inr None \<Rightarrow>
          Inl (Raised AttributeError
                ([39] @ u ''NoneType'' @ [39] @ u '' object has no attribute ''
                   @ [39] @ u ''bytes_sent'' @ [39]))
      | Inr (Some current_net_io) \<Rightarrow>
          (let current_time = now;
               stats = \<lparr>total_sent = bytes_sent current_net_io,
                        total_recv = bytes_recv current_net_io,
                        total_sent_gb =
                          py_round2 (int_div_int (bytes_sent current_net_io) (1024 ^ 3)),
                        total_recv_gb =
                          py_round2 (int_div_int (bytes_recv current_net_io) (1024 ^ 3)),
                        upload_speed = 0, download_speed = 0,
                        upload_speed_mbps = 0, download_speed_mbps = 0\<rparr>;
               stats' =
                 (case (last_net_io g, last_net_io_time g) of
                    (Some last_io, Some last_time) \<Rightarrow>
                      (let time_delta = total_seconds (current_time - last_time) in
                       if 0 < time_delta then
                         (let upload =
                                int_div_float
                                  (bytes_sent current_net_io - bytes_sent last_io) time_delta;
                              download =
                                int_div_float
                                  (bytes_recv current_net_io - bytes_recv last_io) time_delta
                          in stats\<lparr>upload_speed := py_int_of_float upload,
                                   download_speed := py_int_of_float download,
                                   upload_speed_mbps := py_round2 (to_mbps upload),
                                   download_speed_mbps := py_round2 (to_mbps download)\<rparr>)
                       else stats)
                  | _ \<Rightarrow> stats)
           in Inr (stats', \<lparr>last_net_io = Some current_net_io,
                            last_net_io_time = Some current_time\<rparr>)))"

text \<open>The handler returns the all-zero dictionary; it assigns no global.\<close>

definition get_network_stats ::
  "exn + net_io option \<Rightarrow> int \<Rightarrow> sampler \<Rightarrow> net_stats \<times> sampler" where
  "get_network_stats net_io_counters now g =
     (case get_network_stats_try net_io_counters now g of
        Inl e \<Rightarrow> (zero_net_stats, g)
      | Inr r \<Rightarrow> r)"

section \<open>Regular expressions\<close>

text \<open>
  The part of Python's \<^verbatim>\<open>re\<close> that the patterns of \<^verbatim>\<open>app.py\<close> use: a
  pattern is a sequence of literal characters, character classes, a class under
  \<^verbatim>\<open>+\<close> (greedy) or \<^verbatim>\<open>*?\<close> (lazy), an alternation of literal strings, and
  the parentheses of capturing groups. No pattern of the program nests groups or puts a
  group under a quantifier.
\<close>

datatype item =
    Lit uchar
  | Cls "uchar \<Rightarrow> bool"
  | Plus "uchar \<Rightarrow> bool"
  | Star "uchar \<Rightarrow> bool"
  | Lazy "uchar \<Rightarrow> bool"
  | Alt "ustr list"
  | Open
  | Close

type_synonym regex = "item list"

text \<open>
  \<open>opened\<close> holds, innermost first and each reversed, the text consumed so far inside
  the groups that are open; \<open>feed\<close> adds consumed characters to all of them.
\<close>

definition feed :: "ustr \<Rightarrow> ustr list \<Rightarrow> ustr list" where
  "feed cs opened = map ((@) (rev cs)) opened"

fun item_weight :: "item \<Rightarrow> nat" where
  "item_weight (Alt as) = Suc (length as)"
| "item_weight (Plus p) = 2"
| "item_weight i = 1"

text \<open>
  \<open>rmatch r s opened groups\<close> matches \<open>r\<close> at the start of \<open>s\<close> the way the
  backtracking matcher does: a greedy repetition takes a character first and gives it
  back when the rest fails, a lazy one tries the rest first, alternatives are tried in
  order. The result is the text of the groups in the order they close, which for these
  patterns is their numbering.
\<close>

function (sequential) rmatch ::
  "regex \<Rightarrow> ustr \<Rightarrow> ustr list \<Rightarrow> ustr list \<Rightarrow> ustr list option" where
  "rmatch [] s opened groups = Some groups"
| "rmatch (Lit c # r) s opened groups =
     (case s of
        [] \<Rightarrow> None
      | x # xs \<Rightarrow> if x = c then rmatch r xs (feed [x] opened) groups else None)"
| "rmatch (Cls p # r) s opened groups =
     (case s of
        [] \<Rightarrow> None
      | x # xs \<Rightarrow> if p x then rmatch r xs (feed [x] opened) groups else None)"
| "rmatch (Plus p # r) s opened groups =
     (case s of
        [] \<Rightarrow> None
      | x # xs \<Rightarrow> if p x then rmatch (Star p # r) xs (feed [x] opened) groups else None)"
| "rmatch (Star p # r) s opened groups =
     (case s of
        [] \<Rightarrow> rmatch r s opened groups
      | x # xs \<Rightarrow>
          if p x then
            (case rmatch (Star p # r) xs (feed [x] opened) groups of
               Some m \<Rightarrow> Some m
             | None \<Rightarrow> rmatch r s opened groups)
          else rmatch r s opened groups)"
| "rmatch (Lazy p # r) s opened groups =
     (case rmatch r s opened groups of
        Some m \<Rightarrow> Some m
      | None \<Rightarrow>
          (case s of
             [] \<Rightarrow> None
           | x # xs \<Rightarrow>
               if p x then rmatch (Lazy p # r) xs (feed [x] opened) groups else None))"
| "rmatch (Alt [] # r) s opened groups = None"
| "rmatch (Alt (a # as) # r) s opened groups =
     (case (if startswith a s then rmatch r (drop (length a) s) (feed a opened) groups
            else None) of
        Some m \<Rightarrow> Some m
      | None \<Rightarrow> rmatch (Alt as # r) s opened groups)"
| "rmatch (Open # r) s opened groups = rmatch r s ([] # opened) groups"
| "rmatch (Close # r) s opened groups =
     (case opened of
        [] \<Rightarrow> None
      | g # opened' \<Rightarrow> rmatch r s opened' (groups @ [rev g]))"
  by pat_completeness auto
termination
  by (relation "inv_image (less_than <*lex*> less_than)
        (\<lambda>(r, s, opened, groups). (length s, sum_list (map item_weight r)))")
    auto

text \<open>\<^verbatim>\<open>re.search\<close>: the match at the leftmost position that has one.\<close>

fun search :: "regex \<Rightarrow> ustr \<Rightarrow> ustr list option" where
  "search r [] = rmatch r [] [] []"
| "search r (x # xs) =
     (case rmatch r (x # xs) [] [] of
        Some m \<Rightarrow> Some m
      | None \<Rightarrow> search r xs)"

text \<open>
  \<^verbatim>\<open>m.group(k)\<close> for \<open>k \<ge> 1\<close>. A match of a pattern has as many groups as the
  pattern has closing parentheses (lemma \<open>search_length\<close> below), so the index the
  program uses is in range.
\<close>

definition group :: "ustr list \<Rightarrow> nat \<Rightarrow> ustr" where
  "group m k = m ! (k - 1)"

definition lits :: "string \<Rightarrow> regex" where
  "lits s = map Lit (u s)"

text \<open>
  The class \<^verbatim>\<open>\d\<close> of a \<^verbatim>\<open>str\<close> pattern is the decimal digits of the
  interpreter's Unicode database, which \<^verbatim>\<open>int()\<close> reads by their digit values. The
  database is not part of the repository: it is the parameter \<open>dec\<close>, giving the value
  of a character that is a decimal digit. \<open>ascii_decimal\<close> is its ASCII part.
\<close>

type_synonym decimals = "uchar \<Rightarrow> nat option"

definition ascii_decimal :: decimals where
  "ascii_decimal c = (if 48 \<le> c \<and> c \<le> 57 then Some (c - 48) else None)"

definition is_decimal :: "decimals \<Rightarrow> uchar \<Rightarrow> bool" where
  "is_decimal dec c \<longleftrightarrow> dec c \<noteq> None"

text \<open>
  The interpreter the program runs on, as far as the program depends on it: the
  decimal digits of its Unicode database, and the cap it puts on the number of digits
  of one conversion between \<^verbatim>\<open>str\<close> and \<^verbatim>\<open>int\<close>
  (\<^verbatim>\<open>sys.get_int_max_str_digits()\<close>, where 0 is no cap). \<open>cpython\<close> is the
  interpreter of the examples: the ASCII digits and the default cap of 4300 digits.
\<close>

record interpreter =
  decimal :: decimals
  max_str_digits :: nat

definition cpython :: interpreter where
  "cpython = \<lparr>decimal = ascii_decimal, max_str_digits = 4300\<rparr>"

text \<open>The decimal numeral of a natural number, \<^verbatim>\<open>str(n)\<close>.\<close>

fun str_nat :: "nat \<Rightarrow> ustr" where
  "str_nat n = (if n < 10 then [48 + n] else str_nat (n div 10) @ [48 + n mod 10])"

text \<open>
  \<^verbatim>\<open>int(s)\<close> on the strings the program passes to it, which are captures of
  \<^verbatim>\<open>\d+\<close>: the number written by the digits. A string of more digits than the
  cap of the interpreter, leading zeros counted, is a \<^verbatim>\<open>ValueError\<close>; below the
  cap Python's integers are unbounded. A string that is empty or holds another
  character is a \<^verbatim>\<open>ValueError\<close> too, its message abridged here: no capture of
  \<^verbatim>\<open>\d+\<close> is such a string (lemma \<open>py_int_digits\<close> below).
\<close>

fun decimals_value :: "decimals \<Rightarrow> int \<Rightarrow> ustr \<Rightarrow> int option" where
  "decimals_value dec acc [] = Some acc"
| "decimals_value dec acc (c # cs) =
     (case dec c of
        None \<Rightarrow> None
      | Some d \<Rightarrow> decimals_value dec (10 * acc + int d) cs)"

definition too_long :: "interpreter \<Rightarrow> ustr \<Rightarrow> bool" where
  "too_long py s \<longleftrightarrow> 0 < max_str_digits py \<and> max_str_digits py < length s"

definition py_int :: "interpreter \<Rightarrow> ustr \<Rightarrow> exn + int" where
  "py_int py s =
     (case (if s = [] then None else decimals_value (decimal py) 0 s) of
        None \<Rightarrow> Inl (Raised ValueError (u ''invalid literal for int() with base 10''))
      | Some n \<Rightarrow>
          if too_long py s then
            Inl (Raised ValueError
                  (u ''Exceeds the limit ('' @ str_nat (max_str_digits py)
                     @ u '' digits) for integer string conversion: value has ''
                     @ str_nat (length s)
                     @ u '' digits; use sys.set_int_max_str_digits() to increase the limit''))
          else Inr n)"

text \<open>Truth value of an optional string: \<^verbatim>\<open>None\<close> and \<^verbatim>\<open>''\<close> are false.\<close>

definition truthy :: "ustr option \<Rightarrow> bool" where
  "truthy v = (case v of None \<Rightarrow> False | Some s \<Rightarrow> s \<noteq> [])"

text \<open>The number of closing parentheses of a pattern.\<close>

fun closes :: "regex \<Rightarrow> nat" where
  "closes [] = 0"
| "closes (Close # r) = Suc (closes r)"
| "closes (i # r) = closes r"

section \<open>Module constants and patterns\<close>

definition SYNC_LOG_FILE :: ustr where
  "SYNC_LOG_FILE = u ''/var/log/telegram-files-sync.log''"

definition RCLONE_LOG_FILE :: ustr where
  "RCLONE_LOG_FILE = u ''/var/log/rclone-sync.log''"

text \<open>The marker of a successful sync, U+540C U+6B65 U+6210 U+529F.\<close>

definition sync_ok :: ustr where
  "sync_ok = [0x540C, 0x6B65, 0x6210, 0x529F]"

text \<open>\<^verbatim>\<open>Main PID: (\d+)\<close>\<close>

definition re_main_pid :: "decimals \<Rightarrow> regex" where
  "re_main_pid dec = lits ''Main PID: '' @ [Open, Plus (is_decimal dec), Close]"

text \<open>\<^verbatim>\<open>Memory: ([\d.]+)([KMG])\<close>\<close>

definition re_memory :: "decimals \<Rightarrow> regex" where
  "re_memory dec =
     lits ''Memory: ''
     @ [Open, Plus (\<lambda>c. is_decimal dec c \<or> c = 46), Close,
        Open, Cls (\<lambda>c. c = 75 \<or> c = 77 \<or> c = 71), Close]"

text \<open>\<^verbatim>\<open>Active: active \([^)]+\) since ([^;]+);\<close>\<close>

definition re_uptime :: regex where
  "re_uptime =
     lits ''Active: active ('' @ [Plus (\<lambda>c. c \<noteq> 41)] @ lits '') since ''
     @ [Open, Plus (\<lambda>c. c \<noteq> 59), Close, Lit 59]"

text \<open>
  The pattern of the moved size and file count,
  U+5DF2 U+79FB U+52A8 \<^verbatim>\<open> (\d+)MB.*?(\d+) \<close> U+4E2A U+6587 U+4EF6. The dot is
  any character but a newline.
\<close>

definition re_moved :: "decimals \<Rightarrow> regex" where
  "re_moved dec =
     map Lit [0x5DF2, 0x79FB, 0x52A8, 32]
     @ [Open, Plus (is_decimal dec), Close] @ lits ''MB''
     @ [Lazy (\<lambda>c. c \<noteq> 10), Open, Plus (is_decimal dec), Close]
     @ map Lit [32, 0x4E2A, 0x6587, 0x4EF6]"

text \<open>\<^verbatim>\<open>\[([^\]]+)\]\<close>\<close>

definition re_time :: regex where
  "re_time = [Lit 91, Open, Plus (\<lambda>c. c \<noteq> 93), Close, Lit 93]"

text \<open>\<^verbatim>\<open>: ([^:]+): (Copied|Moved)\<close>\<close>

definition re_recent :: regex where
  "re_recent =
     lits '': '' @ [Open, Plus (\<lambda>c. c \<noteq> 58), Close] @ lits '': ''
     @ [Open, Alt [u ''Copied'', u ''Moved''], Close]"

text \<open>\<^verbatim>\<open>Transferred:\s+([^,]+),\s+(\d+)%,\s+([^,]+)\<close>\<close>

definition re_transferred :: "decimals \<Rightarrow> regex" where
  "re_transferred dec =
     lits ''Transferred:''
     @ [Plus is_space, Open, Plus (\<lambda>c. c \<noteq> 44), Close, Lit 44,
        Plus is_space, Open, Plus (is_decimal dec), Close, Lit 37, Lit 44,
        Plus is_space, Open, Plus (\<lambda>c. c \<noteq> 44), Close]"

text \<open>\<^verbatim>\<open>: ([^:]+):\<close>\<close>

definition re_current :: regex where
  "re_current = lits '': '' @ [Open, Plus (\<lambda>c. c \<noteq> 58), Close, Lit 58]"

section \<open>Service status\<close>

text \<open>
  The dictionary \<^verbatim>\<open>get_service_status\<close> returns has one of two shapes: the five
  keys of the \<^verbatim>\<open>try\<close> block or the three keys of the handler.
\<close>

datatype service_status =
    Service (active: bool) (status: ustr) (pid: "int option") (memory: ustr) (uptime: ustr)
  | Degraded (active: bool) (status: ustr) (error: ustr)

text \<open>
  \<^verbatim>\<open>subprocess.run(argv, capture_output=True, text=True, timeout=5)\<close>: it raises
  (\<^verbatim>\<open>TimeoutExpired\<close> when the time is up, an \<^verbatim>\<open>OSError\<close> when the program
  cannot be started, a decoding error) or completes with the text of the standard
  output. The exit status is not read.
\<close>

type_synonym runner = "ustr list \<Rightarrow> exn + ustr"

definition get_service_status_try ::
  "interpreter \<Rightarrow> runner \<Rightarrow> ustr \<Rightarrow> exn + service_status" where
  "get_service_status_try py run service_name =
     (case run [u ''systemctl'', u ''is-active'', service_name] of
        Inl e \<Rightarrow> Inl e
      | Inr stdout1 \<Rightarrow>
          (let is_active = (strip stdout1 = u ''active'') in
           case run [u ''systemctl'', u ''status'', service_name, u ''--no-pager''] of
             Inl e \<Rightarrow> Inl e
           | Inr status_text \<Rightarrow>
               (case (case search (re_main_pid (decimal py)) status_text of
                        Some pid_match \<Rightarrow> map_sum id Some (py_int py (group pid_match 1))
                      | None \<Rightarrow> Inr None) of
                  Inl e \<Rightarrow> Inl e
                | Inr pid' \<Rightarrow>
                    (let memory' =
                           (case search (re_memory (decimal py)) status_text of
                              Some mem_match \<Rightarrow> group mem_match 1 @ group mem_match 2
                            | None \<Rightarrow> u ''N/A'');
                         uptime' =
                           (case search re_uptime status_text of
                              Some uptime_match \<Rightarrow> group uptime_match 1
                            | None \<Rightarrow> u ''N/A'')
                     in Inr (Service is_active
                               (if is_active then u ''running'' else u ''stopped'')
                               pid' memory' uptime')))))"

text \<open>\<^verbatim>\<open>str(e)\<close> is the message of the exception.\<close>

definition get_service_status :: "interpreter \<Rightarrow> runner \<Rightarrow> ustr \<Rightarrow> service_status" where
  "get_service_status py run service_name =
     (case get_service_status_try py run service_name of
        Inl e \<Rightarrow> Degraded False (u ''unknown'') (message e)
      | Inr r \<Rightarrow> r)"

section \<open>Sync statistics\<close>

record recent_file =
  name :: ustr
  action :: ustr

record sync_stats =
  total_synced :: int
  total_size_mb :: int
  success_count :: int
  error_count :: int
  last_sync :: "ustr option"
  recent_files :: "recent_file list"

definition initial_sync_stats :: sync_stats where
  "initial_sync_stats =
     \<lparr>total_synced = 0, total_size_mb = 0, success_count = 0, error_count = 0,
      last_sync = None, recent_files = []\<rparr>"

text \<open>
  The dictionary \<^verbatim>\<open>stats\<close> is updated in place and the handler returns it as it
  is, so a raise carries the dictionary of that moment.

  The statements under \<^verbatim>\<open>if match:\<close>, which add the moved size and file count.
\<close>

definition add_moved :: "interpreter \<Rightarrow> sync_stats \<Rightarrow> ustr \<Rightarrow> exn \<times> sync_stats + sync_stats" where
  "add_moved py stats line =
     (case search (re_moved (decimal py)) line of
        None \<Rightarrow> Inr stats
      | Some m \<Rightarrow>
          (case py_int py (group m 1) of
             Inl e \<Rightarrow> Inl (e, stats)
           | Inr size_mb \<Rightarrow>
               (case py_int py (group m 2) of
                  Inl e \<Rightarrow> Inl (e, stats)
                | Inr file_count \<Rightarrow>
                    Inr (stats\<lparr>total_synced := total_synced stats + file_count,
                               total_size_mb := total_size_mb stats + size_mb\<rparr>))))"

text \<open>The statements that extract the time.\<close>

definition set_last_sync :: "sync_stats \<Rightarrow> ustr \<Rightarrow> sync_stats" where
  "set_last_sync stats line =
     (case search re_time line of
        Some time_match \<Rightarrow>
          if \<not> truthy (last_sync stats) then stats\<lparr>last_sync := Some (group time_match 1)\<rparr>
          else stats
      | None \<Rightarrow> stats)"

text \<open>The body of the loop over the sync log.\<close>

definition sync_line :: "interpreter \<Rightarrow> sync_stats \<Rightarrow> ustr \<Rightarrow> exn \<times> sync_stats + sync_stats" where
  "sync_line py stats line =
     (case (if contains sync_ok line then
              (case add_moved py (stats\<lparr>success_count := success_count stats + 1\<rparr>) line of
                 Inl r \<Rightarrow> Inl r
               | Inr stats' \<Rightarrow> Inr (set_last_sync stats' line))
            else Inr stats) of
        Inl r \<Rightarrow> Inl r
      | Inr stats' \<Rightarrow>
          Inr (if contains (u ''ERROR'') line
               then stats'\<lparr>error_count := error_count stats' + 1\<rparr> else stats'))"

fun sync_loop :: "interpreter \<Rightarrow> sync_stats \<Rightarrow> ustr list \<Rightarrow> exn \<times> sync_stats + sync_stats" where
  "sync_loop py stats [] = Inr stats"
| "sync_loop py stats (line # logs) =
     (case sync_line py stats line of
        Inl r \<Rightarrow> Inl r
      | Inr stats' \<Rightarrow> sync_loop py stats' logs)"

text \<open>The body of the loop over the reversed rclone log.\<close>

definition recent_line :: "sync_stats \<Rightarrow> ustr \<Rightarrow> sync_stats" where
  "recent_line stats line =
     (if contains (u ''INFO'') line
         \<and> (contains (u ''Copied'') line \<or> contains (u ''Moved'') line) then
        (case search re_recent line of
           Some m \<Rightarrow>
             (let filename = strip (group m 1) in
              if length (recent_files stats) < 10 then
                stats\<lparr>recent_files :=
                        recent_files stats @ [\<lparr>name = filename, action = group m 2\<rparr>]\<rparr>
              else stats)
         | None \<Rightarrow> stats)
      else stats)"

fun recent_loop :: "sync_stats \<Rightarrow> ustr list \<Rightarrow> sync_stats" where
  "recent_loop stats [] = stats"
| "recent_loop stats (line # logs) = recent_loop (recent_line stats line) logs"

definition get_sync_stats_try :: "interpreter \<Rightarrow> filesystem \<Rightarrow> exn \<times> sync_stats + sync_stats" where
  "get_sync_stats_try py fs =
     (let logs = parse_log_file fs SYNC_LOG_FILE 500 in
      case sync_loop py initial_sync_stats logs of
        Inl r \<Rightarrow> Inl r
      | Inr stats \<Rightarrow>
          (let rclone_logs = parse_log_file fs RCLONE_LOG_FILE 100
           in Inr (recent_loop stats (rev rclone_logs))))"

definition get_sync_stats :: "interpreter \<Rightarrow> filesystem \<Rightarrow> sync_stats" where
  "get_sync_stats py fs =
     (case get_sync_stats_try py fs of
        Inl (e, stats) \<Rightarrow> stats
      | Inr stats \<Rightarrow> stats)"

section \<open>Upload progress\<close>

text \<open>
  The locals \<^verbatim>\<open>current_file\<close>, \<^verbatim>\<open>progress\<close> and \<^verbatim>\<open>speed\<close> of the scan
  (\<^verbatim>\<open>eta\<close> is never assigned), and the body of the loop over the reversed log.
\<close>

type_synonym scan = "ustr option \<times> int option \<times> ustr option"

definition progress_line :: "interpreter \<Rightarrow> scan \<Rightarrow> ustr \<Rightarrow> exn + scan" where
  "progress_line py sc line =
     (case sc of (current_file, progress, speed) \<Rightarrow>
        (case (if contains (u ''Transferred:'') line then
                 (case search (re_transferred (decimal py)) line of
                    Some m \<Rightarrow>
                      (case py_int py (group m 2) of
                         Inl e \<Rightarrow> Inl e
                       | Inr n \<Rightarrow> Inr (Some n, Some (strip (group m 3))))
                  | None \<Rightarrow> Inr (progress, speed))
               else Inr (progress, speed)) of
           Inl e \<Rightarrow> Inl e
         | Inr (progress', speed') \<Rightarrow>
             Inr (if contains (u ''INFO'') line
                     \<and> (contains (u ''Copied'') line \<or> contains (u ''Moved'') line
                        \<or> contains (u '':'') line) then
                    (case search re_current line of
                       Some m \<Rightarrow>
                         if \<not> truthy current_file
                         then (Some (strip (group m 1)), progress', speed')
                         else (current_file, progress', speed')
                     | None \<Rightarrow> (current_file, progress', speed'))
                  else (current_file, progress', speed'))))"

fun progress_scan :: "interpreter \<Rightarrow> scan \<Rightarrow> ustr list \<Rightarrow> exn + scan" where
  "progress_scan py sc [] = Inr sc"
| "progress_scan py sc (line # logs) =
     (case progress_line py sc line of
        Inl e \<Rightarrow> Inl e
      | Inr sc' \<Rightarrow> progress_scan py sc' logs)"

text \<open>
  One element of \<^verbatim>\<open>psutil.process_iter(['pid', 'name', 'cmdline'])\<close>, with the two
  entries of \<^verbatim>\<open>proc.info\<close> that are read. An entry is \<^verbatim>\<open>None\<close> when psutil
  was denied access to it.
\<close>

record proc_info =
  proc_name :: "ustr option"
  proc_cmdline :: "ustr list option"

record upload_progress =
  is_uploading :: bool
  current_file :: "ustr option"
  progress :: int
  speed :: ustr
  upload_status :: ustr

text \<open>
  The status texts: uploading (U+6B63 U+5728 U+4E0A U+4F20), idle (U+7A7A U+95F2),
  unknown (U+672A U+77E5), and the placeholder file name (U+5904 U+7406 U+4E2D and three
  dots).
\<close>

definition status_uploading :: ustr where
  "status_uploading = [0x6B63, 0x5728, 0x4E0A, 0x4F20]"

definition status_idle :: ustr where
  "status_idle = [0x7A7A, 0x95F2]"

definition status_unknown :: ustr where
  "status_unknown = [0x672A, 0x77E5]"

definition processing :: ustr where
  "processing = [0x5904, 0x7406, 0x4E2D, 46, 46, 46]"

definition idle_progress :: upload_progress where
  "idle_progress =
     \<lparr>is_uploading = False, current_file = None, progress = 0, speed = u ''N/A'',
      upload_status = status_idle\<rparr>"

definition unknown_progress :: upload_progress where
  "unknown_progress =
     \<lparr>is_uploading = False, current_file = None, progress = 0, speed = u ''N/A'',
      upload_status = status_unknown\<rparr>"

text \<open>\<^verbatim>\<open>x or d\<close> for an optional string and for an optional integer.\<close>

definition or_str :: "ustr option \<Rightarrow> ustr \<Rightarrow> ustr" where
  "or_str v d = (case v of None \<Rightarrow> d | Some s \<Rightarrow> if s \<noteq> [] then s else d)"

definition or_int :: "int option \<Rightarrow> int \<Rightarrow> int" where
  "or_int v d = (case v of None \<Rightarrow> d | Some n \<Rightarrow> if n \<noteq> 0 then n else d)"

definition truthy_int :: "int option \<Rightarrow> bool" where
  "truthy_int v = (case v of None \<Rightarrow> False | Some n \<Rightarrow> n \<noteq> 0)"

text \<open>
  The loop over the processes. \<open>Inr (Some d)\<close> is the \<^verbatim>\<open>return\<close> inside the loop,
  \<open>Inr None\<close> the end of the loop; the primed names are the locals after the scan.
  For a process named rclone whose command line is
  \<^verbatim>\<open>None\<close>, the test \<^verbatim>\<open>'move' in cmdline\<close> raises a \<^verbatim>\<open>TypeError\<close>.
\<close>

fun upload_loop ::
  "interpreter \<Rightarrow> filesystem \<Rightarrow> proc_info list \<Rightarrow> exn + upload_progress option" where
  "upload_loop py fs [] = Inr None"
| "upload_loop py fs (proc # procs) =
     (if proc_name proc = Some (u ''rclone'') then
        (case proc_cmdline proc of
           None \<Rightarrow>
             Inl (Raised TypeError
                   (u ''argument of type '' @ [39] @ u ''NoneType'' @ [39]
                      @ u '' is not iterable''))
         | Some cmdline \<Rightarrow>
             if u ''move'' \<in> set cmdline \<or> u ''copy'' \<in> set cmdline
                \<or> u ''sync'' \<in> set cmdline then
               (let logs = parse_log_file fs RCLONE_LOG_FILE 50 in
                case progress_scan py (None, None, None) (rev logs) of
                  Inl e \<Rightarrow> Inl e
                | Inr (current_file', progress', speed') \<Rightarrow>
                    if truthy current_file' \<or> truthy_int progress' then
                      Inr (Some \<lparr>is_uploading = True,
                                 current_file = Some (or_str current_file' processing),
                                 progress = or_int progress' 0,
                                 speed = or_str speed' (u ''N/A''),
                                 upload_status = status_uploading\<rparr>)
                    else upload_loop py fs procs)
             else upload_loop py fs procs)
      else upload_loop py fs procs)"

definition get_upload_progress ::
  "interpreter \<Rightarrow> filesystem \<Rightarrow> proc_info list \<Rightarrow> upload_progress" where
  "get_upload_progress py fs procs =
     (case upload_loop py fs procs of
        Inl e \<Rightarrow> unknown_progress
      | Inr (Some d) \<Rightarrow> d
      | Inr None \<Rightarrow> idle_progress)"

section \<open>What the specification says of the scans and of the tail\<close>

text \<open>
  The timestamp of the first line, in file order, that has the success marker and a
  bracketed text: the specification's value of \<open>last_sync\<close>.
\<close>

fun first_success_time :: "ustr list \<Rightarrow> ustr option" where
  "first_success_time [] = None"
| "first_success_time (line # lines) =
     (if contains sync_ok line then
        (case search re_time line of
           Some m \<Rightarrow> Some (group m 1)
         | None \<Rightarrow> first_success_time lines)
      else first_success_time lines)"

text \<open>
  The entry a line of the rclone log contributes to \<open>recent_files\<close>: a line tagged
  \<^verbatim>\<open>INFO\<close> with a completion marker that the file-name pattern matches.
\<close>

definition recent_entry :: "ustr \<Rightarrow> recent_file option" where
  "recent_entry line =
     (if contains (u ''INFO'') line
         \<and> (contains (u ''Copied'') line \<or> contains (u ''Moved'') line) then
        (case search re_recent line of
           Some m \<Rightarrow> Some \<lparr>name = strip (group m 1), action = group m 2\<rparr>
         | None \<Rightarrow> None)
      else None)"

text \<open>The last \<open>n\<close> elements of a list, all of them when it is shorter.\<close>

definition trailing :: "nat \<Rightarrow> 'a list \<Rightarrow> 'a list" where
  "trailing n xs = drop (length xs - n) xs"

section \<open>Where the scan of the sync log stops\<close>

text \<open>
  The only statement of the loop over the sync log that can raise is \<^verbatim>\<open>int()\<close> on
  a capture of the moved-size pattern: \<open>line_raises\<close> holds of a line with the
  success marker on which the pattern matches and the size or the count has more digits
  than the interpreter converts. \<open>scanned\<close> is the part of the log in front of the first
  such line, and \<open>returned\<close> the dictionary that comes back, from the handler or from
  the end of the \<^verbatim>\<open>try\<close> block.
\<close>

definition moved_raises :: "interpreter \<Rightarrow> ustr \<Rightarrow> bool" where
  "moved_raises py line =
     (case search (re_moved (decimal py)) line of
        None \<Rightarrow> False
      | Some m \<Rightarrow> too_long py (group m 1) \<or> too_long py (group m 2))"

definition line_raises :: "interpreter \<Rightarrow> ustr \<Rightarrow> bool" where
  "line_raises py line \<longleftrightarrow> contains sync_ok line \<and> moved_raises py line"

definition scanned :: "interpreter \<Rightarrow> ustr list \<Rightarrow> ustr list" where
  "scanned py logs = takeWhile (\<lambda>line. \<not> line_raises py line) logs"

definition returned :: "exn \<times> sync_stats + sync_stats \<Rightarrow> sync_stats" where
  "returned r = (case r of Inl (e, stats) \<Rightarrow> stats | Inr stats \<Rightarrow> stats)"

section \<open>Inputs of the examples\<close>

text \<open>A file system holding one file.\<close>

definition one_file :: "ustr \<Rightarrow> ustr list \<Rightarrow> filesystem" where
  "one_file path lines p = (if p = path then Lines lines else Absent)"

text \<open>
  Two runners: one on which every command times out, and one on which
  \<^verbatim>\<open>systemctl is-active docker\<close> answers and the second command cannot be started.
\<close>

definition run_timeout :: runner where
  "run_timeout argv = Inl (Raised TimeoutExpired (u ''timed out after 5 seconds''))"

definition run_status_missing :: runner where
  "run_status_missing argv =
     (if argv = [u ''systemctl'', u ''is-active'', u ''docker''] then Inr (u ''active'' @ [10])
      else Inl (Raised OSError (u ''No such file or directory'')))"

text \<open>
  A sync log with two success lines, and an rclone log with eleven completion lines.
\<close>

definition two_success_log :: "ustr list" where
  "two_success_log =
     [u ''[2024-01-01 10:00] '' @ sync_ok @ [10],
      u ''noise'' @ [10],
      u ''[2024-01-01 11:00] '' @ sync_ok @ [10]]"

definition eleven_copies_log :: "ustr list" where
  "eleven_copies_log =
     map (\<lambda>n. u ''INFO : f'' @ n @ u '': Copied'' @ [10])
       [u ''01'', u ''02'', u ''03'', u ''04'', u ''05'', u ''06'', u ''07'', u ''08'',
        u ''09'', u ''10'', u ''11'']"

text \<open>
  A success line stamped 10:00 whose moved size is written with 4301 digits, one more
  than \<open>cpython\<close> converts: the bracketed time, the success marker, and
  U+5DF2 U+79FB U+52A8, the digits, \<^verbatim>\<open>MB 1\<close> and U+4E2A U+6587 U+4EF6.
\<close>

definition many_digits :: ustr where
  "many_digits = replicate 4301 49"

definition long_size_line :: ustr where
  "long_size_line =
     u ''[2024-01-01 10:00] '' @ sync_ok @ [32, 0x5DF2, 0x79FB, 0x52A8, 32] @ many_digits
     @ u ''MB 1 '' @ [0x4E2A, 0x6587, 0x4EF6]"

section \<open>Reading the result of the process loop\<close>




text \<open>
  A running \<^verbatim>\<open>rclone move\<close>, and two rclone logs: two progress lines, the older at
  10% and the newer at 60%; a completion line followed by a progress line.
\<close>

definition rclone_move :: proc_info where
  "rclone_move =
     \<lparr>proc_name = Some (u ''rclone''),
      proc_cmdline = Some [u ''rclone'', u ''move'', u ''/data'', u ''gd:'']\<rparr>"

definition two_transferred_log :: "ustr list" where
  "two_transferred_log =
     [u ''Transferred: 1GiB / 9GiB, 10%, 1MiB/s'' @ [10],
      u ''Transferred: 5GiB / 9GiB, 60%, 5MiB/s'' @ [10]]"


section \<open>The log reader: properties\<close>

lemma slice_from_neg: "0 < n \<Longrightarrow> slice_from (- n) xs = trailing (nat n) xs"
  by (simp add: slice_from_def trailing_def Let_def max_def nat_diff_distrib' nat_add_distrib)

lemma length_trailing: "length (trailing n xs) \<le> n"
  by (simp add: trailing_def)

text \<open>
  Claim C8, as the code has it. For a positive \<open>max_lines\<close>, \<open>parse_log_file\<close>
  returns the last \<open>max_lines\<close> lines of the file, all of them when the file is
  shorter, in file order, each with its leading and trailing whitespace removed; that is
  at most \<open>max_lines\<close> strings. For a path with no file, or with a file whose opening
  or reading raises, it returns the empty list.
\<close>

theorem C8_parse_log_file_tail:
  assumes "0 < max_lines"
  shows "(fs file_path = Lines lines \<longrightarrow>
            parse_log_file fs file_path max_lines
              = map strip (trailing (nat max_lines) lines)
            \<and> int (length (parse_log_file fs file_path max_lines)) \<le> max_lines)
       \<and> (fs file_path = Absent \<or> fs file_path = Unreadable e \<longrightarrow>
            parse_log_file fs file_path max_lines = [])"
proof -
  have "int (length (trailing (nat max_lines) lines)) \<le> max_lines"
    using length_trailing [of "nat max_lines" lines] assms by linarith
  then show ?thesis
    using assms
    by (auto simp: parse_log_file_def parse_log_file_try_def slice_from_neg)
qed

theorem C8_parse_log_file_tail_witness:
  "parse_log_file (one_file (u ''sync.log'') [u ''a'' @ [10], u '' b'' @ [10], u ''c''])
       (u ''sync.log'') 2 = [u ''b'', u ''c'']
   \<and> parse_log_file (one_file (u ''sync.log'') []) (u ''rclone.log'') 2 = []"
proof -
  have pos: "(0::int) < 2" by simp
  have "one_file (u ''sync.log'') [u ''a'' @ [10], u '' b'' @ [10], u ''c''] (u ''sync.log'')
          = Lines [u ''a'' @ [10], u '' b'' @ [10], u ''c'']"
    by (simp add: one_file_def)
  moreover have "one_file (u ''sync.log'') [] (u ''rclone.log'') = Absent"
    by (simp add: one_file_def u_def)
  ultimately show ?thesis
    using C8_parse_log_file_tail [OF pos, of "one_file (u ''sync.log'') [u ''a'' @ [10], u '' b'' @ [10], u ''c'']"
        "u ''sync.log''" "[u ''a'' @ [10], u '' b'' @ [10], u ''c'']"]
      C8_parse_log_file_tail [OF pos, of "one_file (u ''sync.log'') []" "u ''rclone.log''"]
    by (simp add: trailing_def strip_def is_space_def u_def)
qed

text \<open>
  Claim C8, as the specification states it, fails: the one line of this file is
  returned without its two leading blanks, so the result is neither the line as read nor
  the line without its terminator.
\<close>

theorem C8_parse_log_file_counterexample:
  "parse_log_file (one_file (u ''sync.log'') [u ''  done'' @ [10]]) (u ''sync.log'') 1
     = [u ''done'']
   \<and> parse_log_file (one_file (u ''sync.log'') [u ''  done'' @ [10]]) (u ''sync.log'') 1
     \<noteq> [u ''  done'' @ [10]]
   \<and> parse_log_file (one_file (u ''sync.log'') [u ''  done'' @ [10]]) (u ''sync.log'') 1
     \<noteq> [u ''  done'']"
  by (simp add: parse_log_file_def parse_log_file_try_def one_file_def slice_from_def
      strip_def is_space_def u_def)

section \<open>Floats: properties of the rounding\<close>

declare bitlen.simps [simp del]

lemma bitlen_0 [simp]: "bitlen 0 = 0"
  by (simp add: bitlen.simps)

lemma bitlen_pos: "0 < n \<Longrightarrow> bitlen n = Suc (bitlen (n div 2))"
  by (subst bitlen.simps) simp

lemma bitlen_bounds: "0 < n \<Longrightarrow> 2 ^ (bitlen n - 1) \<le> n \<and> n < 2 ^ bitlen n"
proof (induction n rule: bitlen.induct)
  case (1 n)
  show ?case
  proof (cases "n div 2 = 0")
    case True
    with 1 have "n = 1" by auto
    then show ?thesis by (simp add: bitlen_pos)
  next
    case False
    then have pos: "0 < n div 2" by simp
    with 1 have IH: "2 ^ (bitlen (n div 2) - 1) \<le> n div 2" "n div 2 < 2 ^ bitlen (n div 2)"
      by auto
    have b: "bitlen n = Suc (bitlen (n div 2))" using 1 by (simp add: bitlen_pos)
    have k: "0 < bitlen (n div 2)" using pos by (simp add: bitlen_pos)
    then have "(2::nat) ^ bitlen (n div 2) = 2 * 2 ^ (bitlen (n div 2) - 1)"
      by (cases "bitlen (n div 2)") auto
    with IH(1) have lo: "(2::nat) ^ bitlen (n div 2) \<le> n" by linarith
    from IH(2) have "n < 2 * 2 ^ bitlen (n div 2)" by linarith
    with lo b show ?thesis by simp
  qed
qed

lemma pow2_powi: "pow2 k = 2 powi k"
  by (simp add: pow2_def power_int_def field_simps)

lemma pow2_pos [simp]: "0 < pow2 k"
  by (simp add: pow2_powi)

lemma pow2_add: "pow2 (a + b) = pow2 a * pow2 b"
  by (simp add: pow2_powi power_int_add)

lemma pow2_mono: "a \<le> b \<Longrightarrow> pow2 a \<le> pow2 b"
  by (simp add: pow2_powi power_int_increasing)

lemma pow2_less: "pow2 a < pow2 b \<Longrightarrow> a < b"
  using pow2_mono [of b a] by (cases "a < b") auto

lemma pow2_nat: "pow2 (int n) = 2 ^ n"
  by (simp add: pow2_def)

lemma pow2_neg_nat: "pow2 (- int n) = 1 / 2 ^ n"
  by (auto simp: pow2_def)

lemma exponent_bounds:
  assumes "0 < x"
  shows "pow2 (exponent x) \<le> x \<and> x < pow2 (exponent x + 1)"
proof (cases "1 \<le> x")
  case True
  define n where "n = nat \<lfloor>x\<rfloor>"
  have n: "0 < n" "of_nat n \<le> x" "x < of_nat n + 1"
    using True by (auto simp: n_def le_nat_floor) linarith+
  have e: "exponent x = int (bitlen n) - 1" using True by (simp add: exponent_def n_def)
  from bitlen_bounds [OF n(1)] have b: "2 ^ (bitlen n - 1) \<le> n" "n < 2 ^ bitlen n" by auto
  have k: "0 < bitlen n" using n(1) by (simp add: bitlen_pos)
  then have "exponent x = int (bitlen n - 1)" using e by simp
  then have "pow2 (exponent x) = 2 ^ (bitlen n - 1)" by (simp only: pow2_nat)
  also have "\<dots> \<le> of_nat n" using b(1) by (metis of_nat_le_iff of_nat_numeral of_nat_power)
  finally have lo: "pow2 (exponent x) \<le> x" using n(2) by simp
  have "exponent x + 1 = int (bitlen n)" using e by simp
  then have "pow2 (exponent x + 1) = 2 ^ bitlen n" by (simp only: pow2_nat)
  moreover have "of_nat n + 1 \<le> (2::rat) ^ bitlen n"
    using b(2) by (metis Suc_leI of_nat_Suc of_nat_le_iff of_nat_numeral of_nat_power add.commute)
  ultimately have "x < pow2 (exponent x + 1)" using n(3) by simp
  with lo show ?thesis by simp
next
  case False
  define y where "y = 1 / x"
  define m where "m = nat \<lceil>y\<rceil> - 1"
  have y: "1 < y" using False assms by (simp add: y_def)
  then have c: "2 \<le> \<lceil>y\<rceil>" by linarith
  then have m: "0 < m" "of_nat m < y" "y \<le> of_nat m + 1"
    by (auto simp: m_def) linarith+
  have e: "exponent x = - int (bitlen m)" using False by (simp add: exponent_def m_def y_def)
  from bitlen_bounds [OF m(1)] have b: "2 ^ (bitlen m - 1) \<le> m" "m < 2 ^ bitlen m" by auto
  have k: "0 < bitlen m" using m(1) by (simp add: bitlen_pos)
  have "of_nat m + 1 \<le> (2::rat) ^ bitlen m"
    using b(2) by (metis Suc_leI of_nat_Suc of_nat_le_iff of_nat_numeral of_nat_power add.commute)
  with m(3) have "y \<le> 2 ^ bitlen m" by simp
  then have "1 / 2 ^ bitlen m \<le> x"
    using assms by (simp add: y_def field_simps)
  moreover have "pow2 (exponent x) = 1 / 2 ^ bitlen m"
    by (simp only: e pow2_neg_nat)
  ultimately have lo: "pow2 (exponent x) \<le> x" by simp
  have "(2::rat) ^ (bitlen m - 1) \<le> of_nat m"
    using b(1) by (metis of_nat_le_iff of_nat_numeral of_nat_power)
  from this m(2) have "2 ^ (bitlen m - 1) < y" by (rule le_less_trans)
  then have "x < 1 / 2 ^ (bitlen m - 1)"
    using assms by (simp add: y_def field_simps)
  moreover have "pow2 (exponent x + 1) = 1 / 2 ^ (bitlen m - 1)"
  proof -
    have "exponent x + 1 = - int (bitlen m - 1)" using e k by simp
    then show ?thesis by (simp only: pow2_neg_nat)
  qed
  ultimately show ?thesis using lo by simp
qed

lemma round_half_even_bounds: "\<lfloor>y\<rfloor> \<le> round_half_even y \<and> round_half_even y \<le> \<lfloor>y\<rfloor> + 1"
  by (simp add: round_half_even_def Let_def)

lemma round_half_even_le_ceiling: "round_half_even y \<le> \<lceil>y\<rceil>"
  unfolding round_half_even_def Let_def
  by (auto simp: ceiling_altdef)

lemma round_half_even_mono: "x \<le> y \<Longrightarrow> round_half_even x \<le> round_half_even y"
proof (cases "\<lfloor>x\<rfloor> = \<lfloor>y\<rfloor>")
  case True
  assume "x \<le> y"
  then have "x - of_int \<lfloor>y\<rfloor> \<le> y - of_int \<lfloor>y\<rfloor>" by simp
  with True show ?thesis
    by (auto simp: round_half_even_def Let_def)
next
  case False
  assume "x \<le> y"
  with False have "\<lfloor>x\<rfloor> + 1 \<le> \<lfloor>y\<rfloor>"
    using floor_mono [of x y] by linarith
  with round_half_even_bounds [of x] round_half_even_bounds [of y] show ?thesis
    by linarith
qed

lemma fl_pos_bounds:
  assumes "0 < x"
  shows "pow2 (exponent x) \<le> fl_pos x \<and> fl_pos x \<le> pow2 (exponent x + 1)"
proof -
  define ulp where "ulp = pow2 (exponent x - 52)"
  have ulp: "0 < ulp" by (simp add: ulp_def)
  have p52: "pow2 52 = 2 ^ 52" and p53: "pow2 53 = 2 ^ 53"
    by (simp_all add: pow2_def)
  have "pow2 (exponent x) = pow2 (52 + (exponent x - 52))" by simp
  also have "\<dots> = pow2 52 * ulp" by (simp only: pow2_add ulp_def)
  finally have e1: "pow2 (exponent x) = 2 ^ 52 * ulp" by (simp only: p52)
  have "pow2 (exponent x + 1) = pow2 (53 + (exponent x - 52))" by (simp add: algebra_simps)
  also have "\<dots> = pow2 53 * ulp" by (simp only: pow2_add ulp_def)
  finally have e2: "pow2 (exponent x + 1) = 2 ^ 53 * ulp" by (simp only: p53)
  from exponent_bounds [OF assms] e1 e2 ulp
  have q: "2 ^ 52 \<le> x / ulp" "x / ulp < 2 ^ 53"
    by (simp_all add: field_simps)
  have "(2::int) ^ 52 \<le> \<lfloor>x / ulp\<rfloor>"
    using q(1) by (simp add: le_floor_iff)
  then have lo: "(2::int) ^ 52 \<le> round_half_even (x / ulp)"
    using round_half_even_bounds [of "x / ulp"] by linarith
  have "\<lceil>x / ulp\<rceil> \<le> (2::int) ^ 53"
    using q(2) by (simp add: ceiling_le_iff)
  then have hi: "round_half_even (x / ulp) \<le> (2::int) ^ 53"
    using round_half_even_le_ceiling [of "x / ulp"] by linarith
  have f: "fl_pos x = of_int (round_half_even (x / ulp)) * ulp"
    by (simp add: fl_pos_def ulp_def Let_def)
  have "2 ^ 52 * ulp \<le> of_int (round_half_even (x / ulp)) * ulp"
    using lo ulp by (simp add: of_int_le_iff [of "2 ^ 52", where 'a = rat, simplified])
  moreover have "of_int (round_half_even (x / ulp)) * ulp \<le> 2 ^ 53 * ulp"
    using hi ulp by (simp add: of_int_le_iff [of _ "2 ^ 53", where 'a = rat, simplified])
  ultimately show ?thesis using f e1 e2 by simp
qed

lemma fl_pos_mono:
  assumes "0 < x" "x \<le> y"
  shows "fl_pos x \<le> fl_pos y"
proof -
  have y: "0 < y" using assms by simp
  from exponent_bounds [OF assms(1)] exponent_bounds [OF y] assms(2)
  have "pow2 (exponent x) < pow2 (exponent y + 1)" by linarith
  then have le: "exponent x \<le> exponent y" using pow2_less by fastforce
  show ?thesis
  proof (cases "exponent x = exponent y")
    case True
    have "x / pow2 (exponent y - 52) \<le> y / pow2 (exponent y - 52)"
      by (intro divide_right_mono assms(2) less_imp_le pow2_pos)
    then have "round_half_even (x / pow2 (exponent y - 52))
        \<le> round_half_even (y / pow2 (exponent y - 52))"
      by (rule round_half_even_mono)
    then show ?thesis
      using True by (simp add: fl_pos_def Let_def)
  next
    case False
    with le have "exponent x + 1 \<le> exponent y" by simp
    then have "pow2 (exponent x + 1) \<le> pow2 (exponent y)" by (rule pow2_mono)
    with fl_pos_bounds [OF assms(1)] fl_pos_bounds [OF y] show ?thesis by linarith
  qed
qed

lemma fl_pos_positive: "0 < x \<Longrightarrow> 0 < fl_pos x"
  using fl_pos_bounds [of x] pow2_pos [of "exponent x"] by linarith

lemma fl_pos_ge_1: "1 \<le> x \<Longrightarrow> 1 \<le> fl_pos x"
proof -
  assume x: "1 \<le> x"
  then have "0 \<le> exponent x" by (simp add: exponent_def bitlen_pos)
  then have "pow2 0 \<le> pow2 (exponent x)" by (rule pow2_mono)
  with fl_pos_bounds [of x] x show ?thesis by (simp add: pow2_def)
qed

lemma fl_0 [simp]: "fl 0 = 0"
  by (simp add: fl_def)

lemma fl_minus: "fl (- x) = - fl x"
  by (simp add: fl_def)

lemma fl_positive: "0 < x \<Longrightarrow> 0 < fl x"
  by (simp add: fl_def fl_pos_positive)

lemma fl_negative: "x < 0 \<Longrightarrow> fl x < 0"
  by (simp add: fl_def fl_pos_positive)

lemma fl_sign: "0 < fl x \<longleftrightarrow> 0 < x"
proof
  assume pos: "0 < fl x"
  show "0 < x"
  proof (rule ccontr)
    assume "\<not> 0 < x"
    then consider "x = 0" | "x < 0" by fastforce
    then show False
    proof cases
      case 1
      with pos show False by simp
    next
      case 2
      with fl_negative [of x] pos show False by simp
    qed
  qed
next
  assume "0 < x"
  then show "0 < fl x" by (rule fl_positive)
qed

lemma fl_mono_pos: "0 < x \<Longrightarrow> x \<le> y \<Longrightarrow> fl x \<le> fl y"
  using fl_pos_mono [of x y] by (simp add: fl_def)

lemma fl_le_minus_1: "x \<le> - 1 \<Longrightarrow> fl x \<le> - 1"
  using fl_pos_ge_1 [of "- x"] by (simp add: fl_def)

lemma total_seconds_pos: "0 < total_seconds d \<longleftrightarrow> 0 < d"
  by (simp add: total_seconds_def fl_sign)

lemma round_half_even_of_int [simp]: "round_half_even (of_int k) = k"
  by (simp add: round_half_even_def)

lemma fl_pos_of_int:
  assumes "0 < n" "n < 2 ^ 53"
  shows "fl_pos (of_int n) = of_int n"
proof -
  define x :: rat where "x = of_int n"
  have x: "0 < x" "1 \<le> x" "x < 2 ^ 53" using assms by (simp_all add: x_def)
  have e0: "0 \<le> exponent x" using x(2) by (simp add: exponent_def bitlen_pos)
  have "pow2 (exponent x) < pow2 53"
    using exponent_bounds [OF x(1)] x(3) by (simp add: pow2_def)
  then have e1: "exponent x < 53" by (rule pow2_less)
  define k where "k = nat (52 - exponent x)"
  have "exponent x - 52 = - int k" using e1 by (simp add: k_def)
  then have ulp: "pow2 (exponent x - 52) = 1 / 2 ^ k" by (simp only: pow2_neg_nat)
  have "x / pow2 (exponent x - 52) = of_int (n * 2 ^ k)"
    unfolding ulp by (simp add: x_def)
  then have "round_half_even (x / pow2 (exponent x - 52)) = n * 2 ^ k"
    by (simp only: round_half_even_of_int)
  then have "fl_pos x = of_int (n * 2 ^ k) * (1 / 2 ^ k)"
    by (simp add: fl_pos_def Let_def ulp)
  then show ?thesis by (simp add: x_def)
qed

lemma fl_of_int: "\<bar>n\<bar> < 2 ^ 53 \<Longrightarrow> fl (of_int n) = of_int n"
  using fl_pos_of_int [of n] fl_pos_of_int [of "- n"]
  by (cases "n = 0"; cases "n < 0") (auto simp: fl_def)

section \<open>The network-rate sampler: properties\<close>

lemma py_int_of_float_nonpos: "x \<le> 0 \<Longrightarrow> py_int_of_float x \<le> 0"
  unfolding py_int_of_float_def by (auto simp: ceiling_le_iff floor_le_iff)

lemma py_int_of_float_neg: "x \<le> - 1 \<Longrightarrow> py_int_of_float x < 0"
  unfolding py_int_of_float_def by (auto simp: ceiling_less_iff)

text \<open>The rate of a counter that fell, over a positive elapsed time.\<close>

lemma rate_nonpos:
  assumes "0 < td" "a < b"
  shows "py_int_of_float (int_div_float (a - b) td) \<le> 0"
proof -
  have "fl (of_int (a - b)) < 0" using assms(2) by (simp add: fl_negative)
  then have "fl (of_int (a - b)) / td < 0" using assms(1) by (simp add: divide_neg_pos)
  then have "fl (fl (of_int (a - b)) / td) < 0" by (rule fl_negative)
  then show ?thesis by (simp add: int_div_float_def py_int_of_float_nonpos)
qed

lemma rate_neg:
  assumes "0 < us" "us \<le> (b - a) * 1000000"
  shows "py_int_of_float (int_div_float (a - b) (total_seconds us)) < 0"
proof -
  let ?td = "total_seconds us"
  have td: "0 < ?td" using assms(1) by (simp add: total_seconds_pos)
  have "(of_int us :: rat) \<le> of_int ((b - a) * 1000000)"
    using assms(2) by (simp only: of_int_le_iff)
  then have "(of_int us :: rat) / 1000000 \<le> of_int (b - a)" by simp
  moreover have "(0::rat) < of_int us / 1000000" using assms(1) by simp
  ultimately have le: "?td \<le> fl (of_int (b - a))"
    unfolding total_seconds_def by (intro fl_mono_pos)
  have "fl (of_int (a - b)) = - fl (of_int (b - a))"
    using fl_minus [of "of_int (b - a)"] by simp
  then have "fl (of_int (a - b)) / ?td = - (fl (of_int (b - a)) / ?td)" by simp
  moreover have "1 \<le> fl (of_int (b - a)) / ?td" using le td by (simp add: pos_le_divide_eq)
  ultimately have "fl (of_int (a - b)) / ?td \<le> - 1" by simp
  then have "fl (fl (of_int (a - b)) / ?td) \<le> - 1" by (rule fl_le_minus_1)
  then show ?thesis by (simp add: int_div_float_def py_int_of_float_neg)
qed

text \<open>
  Claim C1, as the specification states it, fails. The previous sample, taken one second
  earlier, holds 1000 bytes sent; the current counter is 0. The reported upload speed is
  \<open>-1000\<close> bytes per second: the difference is divided by the elapsed time and
  truncated, and nothing clamps it.
\<close>

theorem C1_counter_reset_counterexample:
  "upload_speed (fst (get_network_stats (Inr (Some \<lparr>bytes_sent = 0, bytes_recv = 500\<rparr>)) 1000000
        \<lparr>last_net_io = Some \<lparr>bytes_sent = 1000, bytes_recv = 500\<rparr>,
          last_net_io_time = Some 0\<rparr>)) = - 1000"
  using fl_of_int [of "- 1000"] fl_of_int [of 1]
  by (simp add: get_network_stats_def get_network_stats_try_def total_seconds_def
      int_div_float_def py_int_of_float_def)

text \<open>
  Claim C1, as the code has it. With a previous sample stored and a positive elapsed
  time, a counter that is smaller than the stored one is not clamped: its speed is never
  positive, and it is negative as soon as the counter fell by at least one byte per
  elapsed second (the elapsed time in microseconds is at most a million times the fall).
\<close>

theorem C1_counter_reset_not_clamped:
  assumes "last_net_io g = Some prev" and "last_net_io_time g = Some t"
    and "0 < total_seconds (now - t)"
  shows "(bytes_sent cur < bytes_sent prev \<longrightarrow>
            upload_speed (fst (get_network_stats (Inr (Some cur)) now g)) \<le> 0
          \<and> (now - t \<le> (bytes_sent prev - bytes_sent cur) * 1000000 \<longrightarrow>
               upload_speed (fst (get_network_stats (Inr (Some cur)) now g)) < 0))
       \<and> (bytes_recv cur < bytes_recv prev \<longrightarrow>
            download_speed (fst (get_network_stats (Inr (Some cur)) now g)) \<le> 0
          \<and> (now - t \<le> (bytes_recv prev - bytes_recv cur) * 1000000 \<longrightarrow>
               download_speed (fst (get_network_stats (Inr (Some cur)) now g)) < 0))"
proof -
  have us: "0 < now - t" using assms(3) by (simp add: total_seconds_pos)
  have up: "upload_speed (fst (get_network_stats (Inr (Some cur)) now g))
      = py_int_of_float (int_div_float (bytes_sent cur - bytes_sent prev)
                           (total_seconds (now - t)))"
    and down: "download_speed (fst (get_network_stats (Inr (Some cur)) now g))
      = py_int_of_float (int_div_float (bytes_recv cur - bytes_recv prev)
                           (total_seconds (now - t)))"
    using assms by (simp_all add: get_network_stats_def get_network_stats_try_def Let_def)
  show ?thesis
    unfolding up down
    using rate_nonpos [OF assms(3)] rate_neg [OF us] by blast
qed

theorem C1_counter_reset_not_clamped_witness:
  "upload_speed (fst (get_network_stats (Inr (Some \<lparr>bytes_sent = 0, bytes_recv = 20\<rparr>)) 2000000
        \<lparr>last_net_io = Some \<lparr>bytes_sent = 1000, bytes_recv = 21\<rparr>,
          last_net_io_time = Some 0\<rparr>)) < 0
   \<and> download_speed (fst (get_network_stats (Inr (Some \<lparr>bytes_sent = 0, bytes_recv = 20\<rparr>)) 2000000
        \<lparr>last_net_io = Some \<lparr>bytes_sent = 1000, bytes_recv = 21\<rparr>,
          last_net_io_time = Some 0\<rparr>)) \<le> 0"
  using C1_counter_reset_not_clamped [of "\<lparr>last_net_io = Some \<lparr>bytes_sent = 1000, bytes_recv = 21\<rparr>,
          last_net_io_time = Some 0\<rparr>" "\<lparr>bytes_sent = 1000, bytes_recv = 21\<rparr>" 0 2000000
      "\<lparr>bytes_sent = 0, bytes_recv = 20\<rparr>"]
  by (simp add: total_seconds_pos)

text \<open>
  Claim C6. When the counters are read and no previous sample is stored, or the elapsed
  time since the stored sample is not positive, the four speed fields are zero and the
  two totals are the current counters.
\<close>

theorem C6_no_rate_zero_speeds:
  assumes "last_net_io g = None \<or> last_net_io_time g = None
           \<or> (\<exists>t. last_net_io_time g = Some t \<and> total_seconds (now - t) \<le> 0)"
  shows "upload_speed (fst (get_network_stats (Inr (Some cur)) now g)) = 0
       \<and> download_speed (fst (get_network_stats (Inr (Some cur)) now g)) = 0
       \<and> upload_speed_mbps (fst (get_network_stats (Inr (Some cur)) now g)) = 0
       \<and> download_speed_mbps (fst (get_network_stats (Inr (Some cur)) now g)) = 0
       \<and> total_sent (fst (get_network_stats (Inr (Some cur)) now g)) = bytes_sent cur
       \<and> total_recv (fst (get_network_stats (Inr (Some cur)) now g)) = bytes_recv cur"
  using assms
  by (auto simp: get_network_stats_def get_network_stats_try_def Let_def
      split: option.splits)

theorem C6_no_rate_zero_speeds_witness:
  "upload_speed (fst (get_network_stats (Inr (Some \<lparr>bytes_sent = 100, bytes_recv = 200\<rparr>)) 5
        \<lparr>last_net_io = None, last_net_io_time = None\<rparr>)) = 0
   \<and> total_sent (fst (get_network_stats (Inr (Some \<lparr>bytes_sent = 100, bytes_recv = 200\<rparr>)) 5
        \<lparr>last_net_io = None, last_net_io_time = None\<rparr>)) = 100
   \<and> download_speed_mbps (fst (get_network_stats (Inr (Some \<lparr>bytes_sent = 100, bytes_recv = 200\<rparr>)) 5
        \<lparr>last_net_io = Some \<lparr>bytes_sent = 7, bytes_recv = 9\<rparr>, last_net_io_time = Some 5\<rparr>)) = 0
   \<and> total_recv (fst (get_network_stats (Inr (Some \<lparr>bytes_sent = 100, bytes_recv = 200\<rparr>)) 5
        \<lparr>last_net_io = Some \<lparr>bytes_sent = 7, bytes_recv = 9\<rparr>, last_net_io_time = Some 5\<rparr>)) = 200"
  using C6_no_rate_zero_speeds [of "\<lparr>last_net_io = None, last_net_io_time = None\<rparr>" 5
      "\<lparr>bytes_sent = 100, bytes_recv = 200\<rparr>"]
    C6_no_rate_zero_speeds [of "\<lparr>last_net_io = Some \<lparr>bytes_sent = 7, bytes_recv = 9\<rparr>, last_net_io_time = Some 5\<rparr>" 5
      "\<lparr>bytes_sent = 100, bytes_recv = 200\<rparr>"]
  by (simp add: total_seconds_def)

text \<open>
  Claim C7. A call that reads the counters leaves them, with the current time, as the
  stored sample, whatever was stored before and whether or not it computed a rate; so the
  next call, whatever it reads, computes against exactly that sample.
\<close>

theorem C7_sample_overwritten:
  "snd (get_network_stats (Inr (Some cur)) now g)
     = \<lparr>last_net_io = Some cur, last_net_io_time = Some now\<rparr>
   \<and> get_network_stats counters' now' (snd (get_network_stats (Inr (Some cur)) now g))
     = get_network_stats counters' now' \<lparr>last_net_io = Some cur, last_net_io_time = Some now\<rparr>"
  by (simp add: get_network_stats_def get_network_stats_try_def Let_def)

text \<open>
  The example of the specification: counters (100, 200), then (1100, 200) ten seconds
  later, give 100 and 0 bytes per second.
\<close>

lemma second_call_speeds:
  "upload_speed (fst (get_network_stats (Inr (Some \<lparr>bytes_sent = 1100, bytes_recv = 200\<rparr>)) 10000000
       \<lparr>last_net_io = Some \<lparr>bytes_sent = 100, bytes_recv = 200\<rparr>,
         last_net_io_time = Some 0\<rparr>)) = 100
   \<and> download_speed (fst (get_network_stats (Inr (Some \<lparr>bytes_sent = 1100, bytes_recv = 200\<rparr>)) 10000000
       \<lparr>last_net_io = Some \<lparr>bytes_sent = 100, bytes_recv = 200\<rparr>,
         last_net_io_time = Some 0\<rparr>)) = 0"
  using fl_of_int [of 10] fl_of_int [of 1000] fl_of_int [of 100]
  by (simp add: get_network_stats_def get_network_stats_try_def total_seconds_def
      int_div_float_def py_int_of_float_def)

theorem C7_sample_overwritten_witness:
  "snd (get_network_stats (Inr (Some \<lparr>bytes_sent = 100, bytes_recv = 200\<rparr>)) 0
         \<lparr>last_net_io = None, last_net_io_time = None\<rparr>)
     = \<lparr>last_net_io = Some \<lparr>bytes_sent = 100, bytes_recv = 200\<rparr>, last_net_io_time = Some 0\<rparr>
   \<and> upload_speed (fst (get_network_stats (Inr (Some \<lparr>bytes_sent = 1100, bytes_recv = 200\<rparr>)) 10000000
         (snd (get_network_stats (Inr (Some \<lparr>bytes_sent = 100, bytes_recv = 200\<rparr>)) 0
                \<lparr>last_net_io = None, last_net_io_time = None\<rparr>)))) = 100
   \<and> download_speed (fst (get_network_stats (Inr (Some \<lparr>bytes_sent = 1100, bytes_recv = 200\<rparr>)) 10000000
         (snd (get_network_stats (Inr (Some \<lparr>bytes_sent = 100, bytes_recv = 200\<rparr>)) 0
                \<lparr>last_net_io = None, last_net_io_time = None\<rparr>)))) = 0"
  using C7_sample_overwritten [of "\<lparr>bytes_sent = 100, bytes_recv = 200\<rparr>" 0
      "\<lparr>last_net_io = None, last_net_io_time = None\<rparr>"
      "Inr (Some \<lparr>bytes_sent = 1100, bytes_recv = 200\<rparr>)" 10000000]
    second_call_speeds
  by simp

text \<open>
  Claim C10. When reading the counters raises (or yields \<^verbatim>\<open>None\<close>, whose
  attribute access raises), the call returns the all-zero dictionary and the stored
  sample is what it was.
\<close>

theorem C10_failed_probe_keeps_state:
  "get_network_stats (Inl e) now g
     = (\<lparr>total_sent = 0, total_recv = 0, total_sent_gb = 0, total_recv_gb = 0,
         upload_speed = 0, download_speed = 0,
         upload_speed_mbps = 0, download_speed_mbps = 0\<rparr>, g)
   \<and> get_network_stats (Inr None) now g
     = (\<lparr>total_sent = 0, total_recv = 0, total_sent_gb = 0, total_recv_gb = 0,
         upload_speed = 0, download_speed = 0,
         upload_speed_mbps = 0, download_speed_mbps = 0\<rparr>, g)"
  by (simp add: get_network_stats_def get_network_stats_try_def zero_net_stats_def)

section \<open>Regular expressions: properties\<close>

text \<open>
  The equations of \<open>rmatch\<close> are unfolded by hand: on a string that is not a literal
  the simplifier would unfold a repetition without end.
\<close>

declare rmatch.simps [simp del]

lemma feed_Nil [simp]: "feed cs [] = []" "feed [] opened = opened"
  by (simp_all add: feed_def map_idI)

lemma feed_feed [simp]: "feed bs (feed as opened) = feed (as @ bs) opened"
  by (simp add: feed_def)

lemma feed_Cons [simp]: "feed cs (g # opened) = (rev cs @ g) # feed cs opened"
  by (simp add: feed_def)

lemma rmatch_LitD:
  "rmatch (Lit c # r) s opened groups = Some m \<Longrightarrow>
     \<exists>zs. s = c # zs \<and> rmatch r zs (feed [c] opened) groups = Some m"
  by (cases s) (auto simp: rmatch.simps split: if_splits)

lemma rmatch_litsD:
  "rmatch (map Lit cs @ r) s opened groups = Some m \<Longrightarrow>
     \<exists>zs. s = cs @ zs \<and> rmatch r zs (feed cs opened) groups = Some m"
proof (induction cs arbitrary: s opened)
  case Nil
  then show ?case by simp
next
  case (Cons c cs)
  then show ?case by (fastforce dest!: rmatch_LitD)
qed

lemma rmatch_ClsD:
  "rmatch (Cls p # r) s opened groups = Some m \<Longrightarrow>
     \<exists>x zs. s = x # zs \<and> p x \<and> rmatch r zs (feed [x] opened) groups = Some m"
  by (cases s) (auto simp: rmatch.simps split: if_splits)

lemma rmatch_StarD:
  "rmatch (Star p # r) s opened groups = Some m \<Longrightarrow>
     \<exists>ys zs. s = ys @ zs \<and> list_all p ys \<and> rmatch r zs (feed ys opened) groups = Some m"
proof (induction s arbitrary: opened)
  case Nil
  then show ?case by (auto simp: rmatch.simps)
next
  case (Cons x xs)
  show ?case
  proof (cases "p x \<and> rmatch (Star p # r) xs (feed [x] opened) groups \<noteq> None")
    case True
    with Cons.prems have "rmatch (Star p # r) xs (feed [x] opened) groups = Some m"
      by (auto simp: rmatch.simps)
    from Cons.IH [OF this] obtain ys zs where
      "xs = ys @ zs" "list_all p ys" "rmatch r zs (feed ys (feed [x] opened)) groups = Some m"
      by blast
    with True have "x # xs = (x # ys) @ zs \<and> list_all p (x # ys)
        \<and> rmatch r zs (feed (x # ys) opened) groups = Some m"
      by simp
    then show ?thesis by blast
  next
    case False
    with Cons.prems have "rmatch r (x # xs) opened groups = Some m"
      by (auto simp: rmatch.simps split: if_splits)
    then have "x # xs = [] @ (x # xs) \<and> list_all p []
        \<and> rmatch r (x # xs) (feed [] opened) groups = Some m"
      by simp
    then show ?thesis by blast
  qed
qed

lemma rmatch_PlusD:
  "rmatch (Plus p # r) s opened groups = Some m \<Longrightarrow>
     \<exists>ys zs. s = ys @ zs \<and> ys \<noteq> [] \<and> list_all p ys
        \<and> rmatch r zs (feed ys opened) groups = Some m"
proof (cases s)
  case Nil
  assume "rmatch (Plus p # r) s opened groups = Some m"
  with Nil show ?thesis by (simp add: rmatch.simps)
next
  case (Cons x xs)
  assume "rmatch (Plus p # r) s opened groups = Some m"
  with Cons have px: "p x" and "rmatch (Star p # r) xs (feed [x] opened) groups = Some m"
    by (auto simp: rmatch.simps split: if_splits)
  from rmatch_StarD [OF this(2)] obtain ys zs where
    "xs = ys @ zs" "list_all p ys" "rmatch r zs (feed ys (feed [x] opened)) groups = Some m"
    by blast
  with Cons px have "s = (x # ys) @ zs \<and> x # ys \<noteq> [] \<and> list_all p (x # ys)
      \<and> rmatch r zs (feed (x # ys) opened) groups = Some m"
    by simp
  then show ?thesis by blast
qed

lemma rmatch_LazyD:
  "rmatch (Lazy p # r) s opened groups = Some m \<Longrightarrow>
     \<exists>ys zs. s = ys @ zs \<and> list_all p ys \<and> rmatch r zs (feed ys opened) groups = Some m"
proof (induction s arbitrary: opened)
  case Nil
  then have "rmatch r [] (feed [] opened) groups = Some m"
    by (auto simp: rmatch.simps split: option.splits)
  then show ?case by fastforce
next
  case (Cons x xs)
  show ?case
  proof (cases "rmatch r (x # xs) opened groups")
    case (Some m')
    with Cons.prems have "x # xs = [] @ (x # xs) \<and> list_all p []
        \<and> rmatch r (x # xs) (feed [] opened) groups = Some m"
      by (simp add: rmatch.simps)
    then show ?thesis by blast
  next
    case None
    with Cons.prems have px: "p x"
      and "rmatch (Lazy p # r) xs (feed [x] opened) groups = Some m"
      by (auto simp: rmatch.simps split: if_splits)
    from Cons.IH [OF this(2)] obtain ys zs where
      "xs = ys @ zs" "list_all p ys" "rmatch r zs (feed ys (feed [x] opened)) groups = Some m"
      by blast
    with px have "x # xs = (x # ys) @ zs \<and> list_all p (x # ys)
        \<and> rmatch r zs (feed (x # ys) opened) groups = Some m"
      by simp
    then show ?thesis by blast
  qed
qed

lemma startswith_append: "startswith a s \<Longrightarrow> s = a @ drop (length a) s"
  by (induction a s rule: startswith.induct) auto

lemma rmatch_AltD:
  "rmatch (Alt as # r) s opened groups = Some m \<Longrightarrow>
     \<exists>a zs. a \<in> set as \<and> s = a @ zs \<and> rmatch r zs (feed a opened) groups = Some m"
proof (induction as)
  case Nil
  then show ?case by (simp add: rmatch.simps)
next
  case (Cons a as)
  show ?case
  proof (cases "startswith a s \<and> rmatch r (drop (length a) s) (feed a opened) groups \<noteq> None")
    case True
    with Cons.prems have "rmatch r (drop (length a) s) (feed a opened) groups = Some m"
      by (auto simp: rmatch.simps)
    with True startswith_append [of a s] show ?thesis by fastforce
  next
    case False
    with Cons.prems have "rmatch (Alt as # r) s opened groups = Some m"
      by (auto simp: rmatch.simps split: if_splits option.splits)
    from Cons.IH [OF this] show ?thesis by fastforce
  qed
qed

lemma rmatch_OpenD:
  "rmatch (Open # r) s opened groups = Some m \<Longrightarrow> rmatch r s ([] # opened) groups = Some m"
  by (simp add: rmatch.simps)

lemma rmatch_CloseD:
  "rmatch (Close # r) s (g # opened) groups = Some m \<Longrightarrow>
     rmatch r s opened (groups @ [rev g]) = Some m"
  by (simp add: rmatch.simps)

lemma rmatch_NilD: "rmatch [] s opened groups = Some m \<Longrightarrow> m = groups"
  by (simp add: rmatch.simps)

lemma rmatch_CloseE:
  "rmatch (Close # r) s opened groups = Some m \<Longrightarrow>
     \<exists>g opened'. opened = g # opened' \<and> rmatch r s opened' (groups @ [rev g]) = Some m"
  by (cases opened) (auto simp: rmatch.simps)

lemma rmatch_length:
  "rmatch r s opened groups = Some m \<Longrightarrow> length m = length groups + closes r"
proof (induction r arbitrary: s opened groups)
  case Nil
  then show ?case by (simp add: rmatch.simps)
next
  case (Cons i r)
  show ?case
  proof (cases i)
    case (Lit c)
    with Cons.prems Cons.IH show ?thesis by (fastforce dest!: rmatch_LitD)
  next
    case (Cls p)
    with Cons.prems Cons.IH show ?thesis by (fastforce dest!: rmatch_ClsD)
  next
    case (Plus p)
    with Cons.prems Cons.IH show ?thesis by (fastforce dest!: rmatch_PlusD)
  next
    case (Star p)
    with Cons.prems Cons.IH show ?thesis by (fastforce dest!: rmatch_StarD)
  next
    case (Lazy p)
    with Cons.prems Cons.IH show ?thesis by (fastforce dest!: rmatch_LazyD)
  next
    case (Alt as)
    with Cons.prems Cons.IH show ?thesis by (fastforce dest!: rmatch_AltD)
  next
    case Open
    with Cons.prems Cons.IH show ?thesis by (fastforce dest!: rmatch_OpenD)
  next
    case Close
    with Cons.prems Cons.IH show ?thesis by (fastforce dest!: rmatch_CloseE)
  qed
qed

lemma search_rmatch: "search r s = Some m \<Longrightarrow> \<exists>t. rmatch r t [] [] = Some m"
  by (induction s) (auto split: option.splits)

lemma search_length: "search r s = Some m \<Longrightarrow> length m = closes r"
  using search_rmatch [of r s m] rmatch_length [of r _ "[]" "[]" m] by auto

text \<open>
  A greedy repetition on a run of characters of its class that ends where the class
  ends: when the rest of the pattern matches behind the whole run, that is the match.
\<close>

lemma rmatch_Star_run:
  assumes "list_all p ys" and "zs = [] \<or> \<not> p (hd zs)"
    and "rmatch r zs (feed ys opened) groups \<noteq> None"
  shows "rmatch (Star p # r) (ys @ zs) opened groups = rmatch r zs (feed ys opened) groups"
  using assms
proof (induction ys arbitrary: opened)
  case Nil
  then show ?case by (cases zs) (auto simp: rmatch.simps)
next
  case (Cons y ys)
  from Cons.prems have "rmatch r zs (feed ys (feed [y] opened)) groups \<noteq> None"
    by simp
  with Cons.IH [of "feed [y] opened"] Cons.prems
  have "rmatch (Star p # r) (ys @ zs) (feed [y] opened) groups
      = rmatch r zs (feed (y # ys) opened) groups"
    by simp
  with Cons.prems show ?case by (auto simp: rmatch.simps)
qed

lemma rmatch_Plus_run:
  assumes "ys \<noteq> []" and "list_all p ys" and "zs = [] \<or> \<not> p (hd zs)"
    and "rmatch r zs (feed ys opened) groups \<noteq> None"
  shows "rmatch (Plus p # r) (ys @ zs) opened groups = rmatch r zs (feed ys opened) groups"
proof -
  from assms(1) obtain y ys' where ys: "ys = y # ys'" by (cases ys) auto
  with assms have "rmatch (Star p # r) (ys' @ zs) (feed [y] opened) groups
      = rmatch r zs (feed ys' (feed [y] opened)) groups"
    by (intro rmatch_Star_run) auto
  with ys assms(2) show ?thesis by (simp add: rmatch.simps)
qed

section \<open>The patterns: what a match captures\<close>

lemma re_time_groups:
  "search re_time s = Some m \<Longrightarrow> \<exists>g. m = [g] \<and> g \<noteq> []"
  by (auto simp: re_time_def
      dest!: search_rmatch rmatch_LitD rmatch_OpenD rmatch_PlusD rmatch_CloseD rmatch_NilD)

lemma re_moved_groups:
  "search (re_moved dec) s = Some m \<Longrightarrow>
     \<exists>g1 g2. m = [g1, g2] \<and> g1 \<noteq> [] \<and> list_all (is_decimal dec) g1
        \<and> g2 \<noteq> [] \<and> list_all (is_decimal dec) g2"
  by (auto simp: re_moved_def lits_def u_def
      dest!: search_rmatch rmatch_LitD rmatch_OpenD rmatch_PlusD rmatch_LazyD rmatch_CloseD
        rmatch_NilD)

lemma re_transferred_groups:
  "search (re_transferred dec) s = Some m \<Longrightarrow>
     \<exists>g1 g2 g3. m = [g1, g2, g3] \<and> g2 \<noteq> [] \<and> list_all (is_decimal dec) g2"
  by (auto simp: re_transferred_def lits_def u_def
      dest!: search_rmatch rmatch_LitD rmatch_OpenD rmatch_PlusD rmatch_CloseD rmatch_NilD)

lemma re_recent_groups:
  "search re_recent s = Some m \<Longrightarrow>
     \<exists>g1 g2. m = [g1, g2] \<and> g1 \<noteq> [] \<and> (g2 = u ''Copied'' \<or> g2 = u ''Moved'')"
  by (auto simp: re_recent_def lits_def u_def
      dest!: search_rmatch rmatch_LitD rmatch_OpenD rmatch_PlusD rmatch_AltD rmatch_CloseD
        rmatch_NilD)

lemma decimals_value_total:
  "list_all (is_decimal dec) s \<Longrightarrow> \<exists>n. decimals_value dec acc s = Some n"
  by (induction s arbitrary: acc) (auto simp: is_decimal_def)

text \<open>On a capture of \<^verbatim>\<open>\d+\<close>, \<^verbatim>\<open>int()\<close> raises exactly when the cap is exceeded.\<close>

lemma py_int_digits:
  assumes "s \<noteq> []" and "list_all (is_decimal (decimal py)) s"
  shows "(too_long py s \<longrightarrow> (\<exists>e. py_int py s = Inl e))
       \<and> (\<not> too_long py s \<longrightarrow> (\<exists>n. py_int py s = Inr n))"
  using decimals_value_total [OF assms(2), of 0] assms(1) by (auto simp: py_int_def)

section \<open>Service status: properties\<close>

text \<open>
  Claim C9. When the first query raises, or the first completes and the second raises
  (a timeout, a program that cannot be started), \<open>get_service_status\<close> returns the
  degraded dictionary: \<open>active\<close> false, \<open>status\<close> \<^verbatim>\<open>unknown\<close>, and the
  message of the exception as \<open>error\<close>. The function returns a dictionary on every
  input: the exception is caught.
\<close>

theorem C9_service_status_degraded:
  assumes "run [u ''systemctl'', u ''is-active'', service_name] = Inl e
           \<or> (\<exists>out. run [u ''systemctl'', u ''is-active'', service_name] = Inr out
                \<and> run [u ''systemctl'', u ''status'', service_name, u ''--no-pager''] = Inl e)"
  shows "get_service_status py run service_name = Degraded False (u ''unknown'') (message e)"
  using assms
  by (auto simp: get_service_status_def get_service_status_try_def)

theorem C9_service_status_degraded_witness:
  "active (get_service_status cpython run_timeout (u ''docker'')) = False
   \<and> status (get_service_status cpython run_timeout (u ''docker'')) = u ''unknown''
   \<and> error (get_service_status cpython run_timeout (u ''docker''))
       = u ''timed out after 5 seconds''
   \<and> get_service_status cpython run_status_missing (u ''docker'')
       = Degraded False (u ''unknown'') (u ''No such file or directory'')"
proof -
  have a: "run_timeout [u ''systemctl'', u ''is-active'', u ''docker'']
      = Inl (Raised TimeoutExpired (u ''timed out after 5 seconds''))"
    by (simp add: run_timeout_def)
  have b: "\<exists>out. run_status_missing [u ''systemctl'', u ''is-active'', u ''docker''] = Inr out
      \<and> run_status_missing [u ''systemctl'', u ''status'', u ''docker'', u ''--no-pager'']
        = Inl (Raised OSError (u ''No such file or directory''))"
    by (simp add: run_status_missing_def)
  show ?thesis
    using C9_service_status_degraded [of run_timeout "u ''docker''" _ cpython, OF disjI1, OF a]
      C9_service_status_degraded [of run_status_missing "u ''docker''" _ cpython, OF disjI2, OF b]
    by simp
qed

section \<open>Sync statistics: properties\<close>

lemma add_moved_cases:
  "(moved_raises py line \<longrightarrow> (\<exists>e. add_moved py stats line = Inl (e, stats)))
   \<and> (\<not> moved_raises py line \<longrightarrow>
        (\<exists>st. add_moved py stats line = Inr st \<and> last_sync st = last_sync stats
           \<and> recent_files st = recent_files stats))"
proof (cases "search (re_moved (decimal py)) line")
  case None
  then show ?thesis by (simp add: add_moved_def moved_raises_def)
next
  case (Some m)
  from re_moved_groups [OF this] obtain g1 g2 where
    m: "m = [g1, g2]" and g1: "g1 \<noteq> []" "list_all (is_decimal (decimal py)) g1"
    and g2: "g2 \<noteq> []" "list_all (is_decimal (decimal py)) g2"
    by blast
  have raises: "moved_raises py line \<longleftrightarrow> too_long py g1 \<or> too_long py g2"
    using Some m by (simp add: moved_raises_def group_def)
  show ?thesis
  proof (cases "too_long py g1")
    case True
    then obtain e where "py_int py g1 = Inl e"
      using py_int_digits [OF g1] by blast
    with True Some m raises show ?thesis by (simp add: add_moved_def group_def)
  next
    case False
    then obtain n1 where n1: "py_int py g1 = Inr n1"
      using py_int_digits [OF g1] by blast
    show ?thesis
    proof (cases "too_long py g2")
      case True
      then obtain e where "py_int py g2 = Inl e"
        using py_int_digits [OF g2] by blast
      with True n1 Some m raises show ?thesis by (simp add: add_moved_def group_def)
    next
      case g2_fits: False
      then obtain n2 where "py_int py g2 = Inr n2"
        using py_int_digits [OF g2] by blast
      with False g2_fits n1 Some m raises show ?thesis
        by (simp add: add_moved_def group_def)
    qed
  qed
qed

lemma set_last_sync_fields:
  "recent_files (set_last_sync stats line) = recent_files stats"
  "last_sync (set_last_sync stats line)
     = (if truthy (last_sync stats) then last_sync stats
        else (case search re_time line of
                Some m \<Rightarrow> Some (group m 1)
              | None \<Rightarrow> last_sync stats))"
  by (auto simp: set_last_sync_def split: option.splits)

lemma sync_line_raises:
  assumes "line_raises py line"
  shows "\<exists>e st. sync_line py stats line = Inl (e, st) \<and> recent_files st = recent_files stats
           \<and> last_sync st = last_sync stats"
proof -
  from assms have "contains sync_ok line" "moved_raises py line"
    by (simp_all add: line_raises_def)
  moreover from this obtain e where
    "add_moved py (stats\<lparr>success_count := success_count stats + 1\<rparr>) line
       = Inl (e, stats\<lparr>success_count := success_count stats + 1\<rparr>)"
    using add_moved_cases [of py line "stats\<lparr>success_count := success_count stats + 1\<rparr>"]
    by blast
  ultimately show ?thesis by (simp add: sync_line_def)
qed

lemma sync_line_passes:
  assumes "\<not> line_raises py line"
  shows "\<exists>st. sync_line py stats line = Inr st \<and> recent_files st = recent_files stats
      \<and> last_sync st
          = (if contains sync_ok line \<and> \<not> truthy (last_sync stats) then
               (case search re_time line of
                  Some m \<Rightarrow> Some (group m 1)
                | None \<Rightarrow> last_sync stats)
             else last_sync stats)"
proof (cases "contains sync_ok line")
  case True
  with assms have "\<not> moved_raises py line" by (simp add: line_raises_def)
  then obtain st where
    "add_moved py (stats\<lparr>success_count := success_count stats + 1\<rparr>) line = Inr st"
    "last_sync st = last_sync stats" "recent_files st = recent_files stats"
    using add_moved_cases [of py line "stats\<lparr>success_count := success_count stats + 1\<rparr>"]
    by auto
  with True show ?thesis
    by (auto simp: sync_line_def set_last_sync_fields split: option.splits)
next
  case False
  then show ?thesis by (simp add: sync_line_def)
qed

lemma sync_loop_returned:
  "last_sync stats = None \<or> truthy (last_sync stats) \<Longrightarrow>
   isl (sync_loop py stats logs) = (\<exists>l \<in> set logs. line_raises py l)
   \<and> recent_files (returned (sync_loop py stats logs)) = recent_files stats
   \<and> last_sync (returned (sync_loop py stats logs))
       = (case last_sync stats of
            Some t \<Rightarrow> Some t
          | None \<Rightarrow> first_success_time (scanned py logs))"
proof (induction logs arbitrary: stats)
  case Nil
  then show ?case by (simp add: returned_def scanned_def split: option.splits)
next
  case (Cons line logs)
  show ?case
  proof (cases "line_raises py line")
    case True
    from sync_line_raises [OF this, of stats] obtain e st where
      "sync_line py stats line = Inl (e, st)" "recent_files st = recent_files stats"
      "last_sync st = last_sync stats"
      by blast
    with True show ?thesis
      by (simp add: returned_def scanned_def split: option.splits)
  next
    case False
    from sync_line_passes [OF this, of stats] obtain st1 where st1:
      "sync_line py stats line = Inr st1" "recent_files st1 = recent_files stats"
      "last_sync st1
         = (if contains sync_ok line \<and> \<not> truthy (last_sync stats) then
              (case search re_time line of
                 Some m \<Rightarrow> Some (group m 1)
               | None \<Rightarrow> last_sync stats)
            else last_sync stats)"
      by blast
    have inv: "last_sync st1 = None \<or> truthy (last_sync st1)"
      using Cons.prems st1(3)
      by (auto simp: truthy_def group_def dest!: re_time_groups split: option.splits)
    have step: "sync_loop py stats (line # logs) = sync_loop py st1 logs"
      using st1(1) by simp
    have "(case last_sync st1 of
             Some t \<Rightarrow> Some t
           | None \<Rightarrow> first_success_time (scanned py logs))
        = (case last_sync stats of
             Some t \<Rightarrow> Some t
           | None \<Rightarrow> first_success_time (scanned py (line # logs)))"
      using Cons.prems st1(3) False
      by (auto simp: truthy_def scanned_def split: option.splits)
    with Cons.IH [OF inv] st1(2) False show ?thesis
      by (simp only: step) simp
  qed
qed

lemma recent_line_entry:
  "recent_line stats line
     = (case recent_entry line of
          Some e \<Rightarrow>
            if length (recent_files stats) < 10
            then stats\<lparr>recent_files := recent_files stats @ [e]\<rparr> else stats
        | None \<Rightarrow> stats)"
  by (simp add: recent_line_def recent_entry_def Let_def split: option.splits)

lemma recent_loop_fields:
  "last_sync (recent_loop stats lines) = last_sync stats"
  by (induction lines arbitrary: stats)
    (auto simp: recent_line_entry split: option.splits)

lemma recent_loop_files:
  "length (recent_files stats) \<le> 10 \<Longrightarrow>
   recent_files (recent_loop stats lines)
     = take 10 (recent_files stats @ List.map_filter recent_entry lines)"
proof (induction lines arbitrary: stats)
  case Nil
  then show ?case by (simp add: List.map_filter_simps)
next
  case (Cons line lines)
  show ?case
  proof (cases "recent_entry line")
    case None
    with Cons show ?thesis by (simp add: recent_line_entry List.map_filter_simps)
  next
    case (Some e)
    show ?thesis
    proof (cases "length (recent_files stats) < 10")
      case True
      with Some Cons.IH [of "stats\<lparr>recent_files := recent_files stats @ [e]\<rparr>"]
      show ?thesis by (simp add: recent_line_entry List.map_filter_simps)
    next
      case False
      with Cons.prems have "length (recent_files stats) = 10" by simp
      with Some Cons.IH [of stats] show ?thesis
        by (simp add: recent_line_entry List.map_filter_simps)
    qed
  qed
qed

text \<open>
  The two fields of the dictionary \<open>get_sync_stats\<close> returns. When a line of the sync
  log raises, the handler returns the dictionary as the scan left it: \<open>last_sync\<close> is
  that of the lines in front of the raising one, and the rclone log is not read.
\<close>

lemma get_sync_stats_char:
  "last_sync (get_sync_stats py fs)
     = first_success_time (scanned py (parse_log_file fs SYNC_LOG_FILE 500))
   \<and> recent_files (get_sync_stats py fs)
      = (if \<exists>l \<in> set (parse_log_file fs SYNC_LOG_FILE 500). line_raises py l then []
         else take 10 (List.map_filter recent_entry
                         (rev (parse_log_file fs RCLONE_LOG_FILE 100))))"
proof -
  let ?r = "sync_loop py initial_sync_stats (parse_log_file fs SYNC_LOG_FILE 500)"
  have r: "isl ?r = (\<exists>l \<in> set (parse_log_file fs SYNC_LOG_FILE 500). line_raises py l)"
    "recent_files (returned ?r) = []"
    "last_sync (returned ?r)
       = first_success_time (scanned py (parse_log_file fs SYNC_LOG_FILE 500))"
    using sync_loop_returned [of initial_sync_stats py "parse_log_file fs SYNC_LOG_FILE 500"]
    by (simp_all add: initial_sync_stats_def)
  show ?thesis
  proof (cases ?r)
    case (Inl a)
    with r show ?thesis
      by (cases a) (auto simp: get_sync_stats_def get_sync_stats_try_def Let_def returned_def)
  next
    case (Inr st)
    with r show ?thesis
      by (auto simp: get_sync_stats_def get_sync_stats_try_def Let_def returned_def
          recent_loop_fields recent_loop_files)
  qed
qed

lemma recent_entry_action:
  "recent_entry line = Some e \<Longrightarrow> action e = u ''Copied'' \<or> action e = u ''Moved''"
  by (auto simp: recent_entry_def group_def split: if_splits option.splits
      dest!: re_recent_groups)

lemma set_map_filter: "e \<in> set (List.map_filter f xs) \<Longrightarrow> \<exists>x. f x = Some e"
  by (induction xs) (auto simp: List.map_filter_simps split: option.splits)

lemma first_success_time_first:
  "\<forall>x \<in> set pre. \<not> contains sync_ok x \<or> search re_time x = None \<Longrightarrow>
   contains sync_ok l \<Longrightarrow> search re_time l = Some m \<Longrightarrow>
   first_success_time (pre @ l # post) = Some (group m 1)"
  by (induction pre) auto

lemma scanned_all: "\<forall>x \<in> set logs. \<not> line_raises py x \<Longrightarrow> scanned py logs = logs"
  by (simp add: scanned_def)

lemma scanned_append:
  "\<forall>x \<in> set (pre @ [l]). \<not> line_raises py x \<Longrightarrow>
   scanned py (pre @ l # post) = pre @ l # scanned py post"
  by (simp add: scanned_def takeWhile_append2)

text \<open>The long size is a run of 4301 digits, and the line of the example raises.\<close>

lemma many_digits_run:
  "many_digits \<noteq> []" "list_all (is_decimal ascii_decimal) many_digits"
  "length many_digits = 4301"
  by (simp_all add: many_digits_def list_all_length is_decimal_def ascii_decimal_def)

lemma long_size_line_time:
  "contains sync_ok long_size_line
   \<and> search re_time long_size_line = Some [u ''2024-01-01 10:00'']"
  by (simp add: long_size_line_def u_def sync_ok_def re_time_def rmatch.simps)

lemma digits_then_rest:
  "rmatch
     [Plus (is_decimal ascii_decimal), Close, Lit 77, Lit 66, Lazy (\<lambda>c. c \<noteq> 10), Open,
      Plus (is_decimal ascii_decimal), Close, Lit 32, Lit 0x4E2A, Lit 0x6587, Lit 0x4EF6]
     (many_digits @ [77, 66, 32, 49, 32, 0x4E2A, 0x6587, 0x4EF6]) [[]] []
   = Some [many_digits, [49]]"
proof -
  let ?r = "[Close, Lit 77, Lit 66, Lazy (\<lambda>c. c \<noteq> 10), Open,
      Plus (is_decimal ascii_decimal), Close, Lit 32, Lit 0x4E2A, Lit 0x6587, Lit 0x4EF6]"
  let ?zs = "[77, 66, 32, 49, 32, 0x4E2A, 0x6587, 0x4EF6] :: ustr"
  have rest: "rmatch ?r ?zs (feed many_digits [[]]) [] = Some [many_digits, [49]]"
    by (simp add: rmatch.simps is_decimal_def ascii_decimal_def)
  have "rmatch (Plus (is_decimal ascii_decimal) # ?r) (many_digits @ ?zs) [[]] []
      = rmatch ?r ?zs (feed many_digits [[]]) []"
    by (rule rmatch_Plus_run)
      (simp_all only: many_digits_run rest, simp_all add: is_decimal_def ascii_decimal_def)
  with rest show ?thesis by simp
qed

lemma long_size_line_moved:
  "search (re_moved ascii_decimal) long_size_line = Some [many_digits, u ''1'']"
  by (simp add: long_size_line_def u_def sync_ok_def re_moved_def lits_def rmatch.simps(2,9)
      digits_then_rest)

lemma long_size_line_raises: "line_raises cpython long_size_line"
  using long_size_line_time long_size_line_moved
  by (simp add: line_raises_def moved_raises_def cpython_def group_def too_long_def
      many_digits_run)

lemma long_size_line_read:
  "parse_log_file (one_file SYNC_LOG_FILE [long_size_line @ [10]]) SYNC_LOG_FILE 500
     = [long_size_line]"
  by (simp add: parse_log_file_def parse_log_file_try_def one_file_def slice_from_def
      strip_def is_space_def long_size_line_def u_def sync_ok_def)

text \<open>
  Claim C4, as the specification states it, fails. The log is one success line stamped
  10:00 whose moved size has 4301 digits: \<^verbatim>\<open>int()\<close> raises on the size before the
  time is looked for, the handler returns the dictionary as it is, and \<open>last_sync\<close>
  is \<^verbatim>\<open>None\<close>, not the time of the first success line that carries one.
\<close>

theorem C4_last_sync_counterexample:
  "contains sync_ok long_size_line
   \<and> search re_time long_size_line = Some [u ''2024-01-01 10:00'']
   \<and> last_sync (get_sync_stats cpython (one_file SYNC_LOG_FILE [long_size_line @ [10]]))
       = None"
  using long_size_line_time long_size_line_raises
    get_sync_stats_char [of cpython "one_file SYNC_LOG_FILE [long_size_line @ [10]]"]
  by (simp add: long_size_line_read scanned_def)

text \<open>
  Claim C4, with the condition it lacks. Let the first line of the log tail, in file
  order, that has the success marker and a bracketed text be reached by the scan: on no
  line up to it does a moved size or file count exceed the digits \<^verbatim>\<open>int()\<close>
  converts. Then \<open>last_sync\<close> is the bracketed text of that line. Whatever follows
  the line, later success lines included, does not change it: the captured text is never
  empty, so the test \<^verbatim>\<open>not stats['last_sync']\<close> fails from then on.
\<close>

theorem C4_last_sync_first_success:
  assumes "parse_log_file fs SYNC_LOG_FILE 500 = pre @ l # post"
    and "\<forall>x \<in> set (pre @ [l]). \<not> line_raises py x"
    and "\<forall>x \<in> set pre. \<not> contains sync_ok x \<or> search re_time x = None"
    and "contains sync_ok l" and "search re_time l = Some m"
  shows "last_sync (get_sync_stats py fs) = Some (group m 1)"
proof -
  have "last_sync (get_sync_stats py fs) = first_success_time (pre @ l # scanned py post)"
    using get_sync_stats_char [of py fs] scanned_append [OF assms(2)] assms(1)
    by simp
  then show ?thesis
    using first_success_time_first [OF assms(3-5)] by simp
qed

text \<open>
  The example of the claim: success lines stamped 10:00 and then 11:00 give 10:00.
\<close>

theorem C4_last_sync_first_success_witness:
  "last_sync (get_sync_stats cpython (one_file SYNC_LOG_FILE two_success_log))
     = Some (u ''2024-01-01 10:00'')"
proof -
  let ?l = "u ''[2024-01-01 10:00] '' @ sync_ok"
  let ?post = "[u ''noise'', u ''[2024-01-01 11:00] '' @ sync_ok]"
  have logs: "parse_log_file (one_file SYNC_LOG_FILE two_success_log) SYNC_LOG_FILE 500
      = [] @ ?l # ?post"
    by (simp add: two_success_log_def parse_log_file_def parse_log_file_try_def one_file_def
        slice_from_def strip_def is_space_def u_def sync_ok_def)
  have reached: "\<forall>x \<in> set ([] @ [?l]). \<not> line_raises cpython x"
    by (simp add: line_raises_def moved_raises_def cpython_def u_def sync_ok_def re_moved_def
        lits_def rmatch.simps)
  have none_before: "\<forall>x \<in> set []. \<not> contains sync_ok x \<or> search re_time x = None"
    by simp
  have ok: "contains sync_ok ?l"
    by (simp add: u_def sync_ok_def)
  have m: "search re_time ?l = Some [u ''2024-01-01 10:00'']"
    by (simp add: u_def sync_ok_def re_time_def rmatch.simps)
  show ?thesis
    using C4_last_sync_first_success [OF logs reached none_before ok m]
    by (simp add: group_def)
qed

text \<open>
  Claim C5. \<open>recent_files\<close> has at most ten entries, and they are the first entries
  of the rclone log tail read from its last line to its first: the most recent first,
  each the file name and the marker (\<^verbatim>\<open>Copied\<close> or \<^verbatim>\<open>Moved\<close>) of a
  completion line. This holds for every pair of logs. When the scan of the sync log ends
  without raising, the list is the first ten of these entries.
\<close>

theorem C5_recent_files_newest_first:
  "length (recent_files (get_sync_stats py fs)) \<le> 10
   \<and> (\<exists>n \<le> 10. recent_files (get_sync_stats py fs)
         = take n (List.map_filter recent_entry (rev (parse_log_file fs RCLONE_LOG_FILE 100))))
   \<and> ((\<forall>l \<in> set (parse_log_file fs SYNC_LOG_FILE 500). \<not> line_raises py l) \<longrightarrow>
        recent_files (get_sync_stats py fs)
          = take 10 (List.map_filter recent_entry (rev (parse_log_file fs RCLONE_LOG_FILE 100))))
   \<and> (\<forall>f \<in> set (recent_files (get_sync_stats py fs)).
         action f = u ''Copied'' \<or> action f = u ''Moved'')"
proof -
  let ?entries = "List.map_filter recent_entry (rev (parse_log_file fs RCLONE_LOG_FILE 100))"
  have cases: "recent_files (get_sync_stats py fs) = take 0 ?entries
      \<or> recent_files (get_sync_stats py fs) = take 10 ?entries"
    using get_sync_stats_char [of py fs] by (auto split: if_splits)
  have all: "recent_files (get_sync_stats py fs) = take 10 ?entries"
    if "\<forall>l \<in> set (parse_log_file fs SYNC_LOG_FILE 500). \<not> line_raises py l"
    using get_sync_stats_char [of py fs] that by simp
  from cases obtain n :: nat where n: "n \<le> 10"
    "recent_files (get_sync_stats py fs) = take n ?entries"
    by (elim disjE) (rule that [of 0], simp, assumption, rule that [of 10], simp, assumption)
  have act: "action f = u ''Copied'' \<or> action f = u ''Moved''"
    if "f \<in> set (recent_files (get_sync_stats py fs))" for f
  proof -
    from that have "f \<in> set (take n ?entries)"
      by (simp only: n(2))
    then have "f \<in> set ?entries"
      by (rule in_set_takeD)
    then obtain line where "recent_entry line = Some f"
      by (auto dest: set_map_filter)
    then show ?thesis by (rule recent_entry_action)
  qed
  have len: "length (recent_files (get_sync_stats py fs)) \<le> 10"
    using n(1) by (simp add: n(2))
  from n have ex: "\<exists>n \<le> 10. recent_files (get_sync_stats py fs) = take n ?entries"
    by blast
  from len ex all act show ?thesis by blast
qed

text \<open>
  Eleven completion lines: the ten most recent are kept, the most recent first.
\<close>

theorem C5_recent_files_newest_first_witness:
  "map name (recent_files (get_sync_stats cpython
                             (one_file RCLONE_LOG_FILE eleven_copies_log)))
     = [u ''f11'', u ''f10'', u ''f09'', u ''f08'', u ''f07'', u ''f06'', u ''f05'', u ''f04'',
        u ''f03'', u ''f02'']
   \<and> map action (recent_files (get_sync_stats cpython
                                 (one_file RCLONE_LOG_FILE eleven_copies_log)))
     = [u ''Copied'', u ''Copied'', u ''Copied'', u ''Copied'', u ''Copied'', u ''Copied'',
        u ''Copied'', u ''Copied'', u ''Copied'', u ''Copied'']"
proof -
  have "take 10 (List.map_filter recent_entry
          (rev (parse_log_file (one_file RCLONE_LOG_FILE eleven_copies_log) RCLONE_LOG_FILE 100)))
      = map (\<lambda>n. \<lparr>name = n, action = u ''Copied''\<rparr>)
          [u ''f11'', u ''f10'', u ''f09'', u ''f08'', u ''f07'', u ''f06'', u ''f05'',
           u ''f04'', u ''f03'', u ''f02'']"
    by (simp add: eleven_copies_log_def parse_log_file_def parse_log_file_try_def one_file_def
        slice_from_def strip_def is_space_def u_def re_recent_def lits_def group_def
        recent_entry_def List.map_filter_simps rmatch.simps)
  moreover have "parse_log_file (one_file RCLONE_LOG_FILE eleven_copies_log) SYNC_LOG_FILE 500
      = []"
    by (simp add: parse_log_file_def parse_log_file_try_def one_file_def SYNC_LOG_FILE_def
        RCLONE_LOG_FILE_def u_def)
  ultimately
  have "recent_files (get_sync_stats cpython (one_file RCLONE_LOG_FILE eleven_copies_log))
      = map (\<lambda>n. \<lparr>name = n, action = u ''Copied''\<rparr>)
          [u ''f11'', u ''f10'', u ''f09'', u ''f08'', u ''f07'', u ''f06'', u ''f05'',
           u ''f04'', u ''f03'', u ''f02'']"
    using C5_recent_files_newest_first [of cpython "one_file RCLONE_LOG_FILE eleven_copies_log"]
    by simp
  then show ?thesis by simp
qed

section \<open>Upload progress: properties\<close>





text \<open>
  Claim C2 on the code. With two progress lines in the log tail, the older at 10% and
  1MiB/s and the newer at 60% and 5MiB/s, the scan runs from the newer to the older and
  every match assigns \<open>progress\<close> and \<open>speed\<close>: the values reported are those of
  the older line, the last one scanned.
\<close>

theorem C2_progress_of_oldest_line:
  "progress (get_upload_progress cpython
               (one_file RCLONE_LOG_FILE two_transferred_log) [rclone_move]) = 10
   \<and> speed (get_upload_progress cpython
               (one_file RCLONE_LOG_FILE two_transferred_log) [rclone_move]) = u ''1MiB/s''"
proof -
  have scan: "progress_scan cpython (None, None, None)
       (rev (parse_log_file (one_file RCLONE_LOG_FILE two_transferred_log) RCLONE_LOG_FILE 50))
     = Inr (None, Some 10, Some (u ''1MiB/s''))"
    by (simp add: two_transferred_log_def parse_log_file_def parse_log_file_try_def
        one_file_def slice_from_def strip_def is_space_def u_def re_transferred_def
        re_current_def lits_def group_def progress_line_def py_int_def too_long_def
        cpython_def ascii_decimal_def is_decimal_def truthy_def rmatch.simps)
  have "u ''move'' \<in> set [u ''rclone'', u ''move'', u ''/data'', u ''gd:'']"
    by simp
  with scan show ?thesis
    by (simp add: get_upload_progress_def rclone_move_def truthy_def truthy_int_def
        or_str_def or_int_def Let_def u_def)
qed

end
